theory Spec2Isabelle
  imports Complex_Main "HOL-Library.Word"
begin

section \<open>Single-precision floats\<close>

text \<open>
  The call bodies of \<^verbatim>\<open>scalar_math.cpp\<close> compute on C++ \<^verbatim>\<open>float\<close>. It is modelled as
  IEEE-754 binary32 in the default environment: round to nearest, ties to even, with
  gradual underflow, every operation rounded once on its own (no fused multiply-add, no
  excess precision). A value is a NaN, an infinity with its sign bit, or a sign bit with a
  magnitude, so both zeros exist; the magnitude is a real number, and the magnitudes of
  binary32 values are those that rounding leaves unchanged. NaN payloads are not
  distinguished.
\<close>

datatype float = NaN | Infinity bool | Finite bool real

definition pow2 :: "int \<Rightarrow> real" where
  "pow2 e = (if 0 \<le> e then 2 ^ nat e else 1 / 2 ^ nat (- e))"

text \<open>
  The exponent of the binade of a magnitude: the greatest \<open>e\<close> in \<open>[-126, 127]\<close> with
  \<open>2 ^ e \<le> x\<close>, searched downwards, and \<open>-126\<close> (the subnormal exponent) when there is none.
\<close>

function f32_exponent_from :: "int \<Rightarrow> real \<Rightarrow> int" where
  "f32_exponent_from e x =
     (if e \<le> - 126 then - 126
      else if pow2 e \<le> x then e
      else f32_exponent_from (e - 1) x)"
  by pat_completeness auto
termination
  by (relation "measure (\<lambda>(e, x). nat (e + 126))") auto

declare f32_exponent_from.simps [simp del]

definition f32_exponent :: "real \<Rightarrow> int" where
  "f32_exponent x = f32_exponent_from 127 x"

definition round_half_even :: "real \<Rightarrow> int" where
  "round_half_even r =
     (let n = \<lfloor>r\<rfloor>; f = r - of_int n
      in if f < 1 / 2 then n
         else if 1 / 2 < f then n + 1
         else if even n then n else n + 1)"

text \<open>
  The nearest multiple of the quantum of the binade of a magnitude, ties to the even
  multiple; and rounding a magnitude to 24 significant bits, where \<open>None\<close> is overflow
  (the rounded magnitude would be \<open>2 ^ 128\<close> or more).
\<close>

definition f32_nearest :: "real \<Rightarrow> real" where
  "f32_nearest x =
     of_int (round_half_even (x / pow2 (f32_exponent x - 23))) * pow2 (f32_exponent x - 23)"

definition f32_round_mag :: "real \<Rightarrow> real option" where
  "f32_round_mag x = (if f32_nearest x < pow2 128 then Some (f32_nearest x) else None)"

text \<open>
  Rounding an exact result; \<open>zs\<close> is the sign bit an exactly zero result gets.
\<close>

definition f32_round :: "bool \<Rightarrow> real \<Rightarrow> float" where
  "f32_round zs x =
     (if x = 0 then Finite zs 0
      else case f32_round_mag \<bar>x\<bar> of
             None \<Rightarrow> Infinity (x < 0)
           | Some m \<Rightarrow> Finite (x < 0) m)"

definition signed_value :: "bool \<Rightarrow> real \<Rightarrow> real" where
  "signed_value s m = (if s then - m else m)"

fun float_neg :: "float \<Rightarrow> float" where
  "float_neg NaN = NaN"
| "float_neg (Infinity s) = Infinity (\<not> s)"
| "float_neg (Finite s m) = Finite (\<not> s) m"

fun float_add :: "float \<Rightarrow> float \<Rightarrow> float" where
  "float_add NaN _ = NaN"
| "float_add _ NaN = NaN"
| "float_add (Infinity s) (Infinity s') = (if s = s' then Infinity s else NaN)"
| "float_add (Infinity s) (Finite _ _) = Infinity s"
| "float_add (Finite _ _) (Infinity s') = Infinity s'"
| "float_add (Finite s m) (Finite s' m') = f32_round (s \<and> s') (signed_value s m + signed_value s' m')"

definition float_sub :: "float \<Rightarrow> float \<Rightarrow> float" where
  "float_sub a b = float_add a (float_neg b)"

fun float_mul :: "float \<Rightarrow> float \<Rightarrow> float" where
  "float_mul NaN _ = NaN"
| "float_mul _ NaN = NaN"
| "float_mul (Infinity s) (Infinity s') = Infinity (s \<noteq> s')"
| "float_mul (Infinity s) (Finite s' m') = (if m' = 0 then NaN else Infinity (s \<noteq> s'))"
| "float_mul (Finite s m) (Infinity s') = (if m = 0 then NaN else Infinity (s \<noteq> s'))"
| "float_mul (Finite s m) (Finite s' m') = f32_round (s \<noteq> s') (signed_value s m * signed_value s' m')"

fun float_div :: "float \<Rightarrow> float \<Rightarrow> float" where
  "float_div NaN _ = NaN"
| "float_div _ NaN = NaN"
| "float_div (Infinity s) (Infinity s') = NaN"
| "float_div (Infinity s) (Finite s' m') = Infinity (s \<noteq> s')"
| "float_div (Finite s m) (Infinity s') = Finite (s \<noteq> s') 0"
| "float_div (Finite s m) (Finite s' m') =
     (if m' = 0 then (if m = 0 then NaN else Infinity (s \<noteq> s'))
      else f32_round (s \<noteq> s') (signed_value s m / signed_value s' m'))"

fun float_lt :: "float \<Rightarrow> float \<Rightarrow> bool" where
  "float_lt NaN _ = False"
| "float_lt _ NaN = False"
| "float_lt (Infinity s) (Infinity s') = (s \<and> \<not> s')"
| "float_lt (Infinity s) (Finite _ _) = s"
| "float_lt (Finite _ _) (Infinity s') = (\<not> s')"
| "float_lt (Finite s m) (Finite s' m') = (signed_value s m < signed_value s' m')"

definition float_gt :: "float \<Rightarrow> float \<Rightarrow> bool" where
  "float_gt a b = float_lt b a"

fun float_eq :: "float \<Rightarrow> float \<Rightarrow> bool" where
  "float_eq NaN _ = False"
| "float_eq _ NaN = False"
| "float_eq (Infinity s) (Infinity s') = (s = s')"
| "float_eq (Infinity s) (Finite _ _) = False"
| "float_eq (Finite _ _) (Infinity s') = False"
| "float_eq (Finite s m) (Finite s' m') = (signed_value s m = signed_value s' m')"

definition float_le :: "float \<Rightarrow> float \<Rightarrow> bool" where
  "float_le a b = (float_lt a b \<or> float_eq a b)"

text \<open>The literal of a decimal constant that is exactly representable.\<close>

definition float_lit :: "real \<Rightarrow> float" where
  "float_lit x = Finite (x < 0) \<bar>x\<bar>"

text \<open>
  The binary32 values among the terms of the datatype: a finite one has a non-negative
  magnitude that rounding leaves as it is. Finite values, and the real value of one.
\<close>

fun is_binary32 :: "float \<Rightarrow> bool" where
  "is_binary32 NaN = True"
| "is_binary32 (Infinity s) = True"
| "is_binary32 (Finite s m) = (0 \<le> m \<and> f32_round_mag m = Some m)"

fun is_finite :: "float \<Rightarrow> bool" where
  "is_finite (Finite s m) = True"
| "is_finite _ = False"

fun float_val :: "float \<Rightarrow> real" where
  "float_val (Finite s m) = signed_value s m"
| "float_val _ = 0"

section \<open>Errors\<close>

text \<open>The error kinds of the runtime; each one aborts the evaluation call.\<close>

datatype error = TypeMismatch | OutOfRange | StackOverflow | UnresolvedBody | DuplicateParameter

definition bind_err :: "error + 'a \<Rightarrow> ('a \<Rightarrow> error + 'b) \<Rightarrow> error + 'b" where
  "bind_err m f = (case m of Inl e \<Rightarrow> Inl e | Inr x \<Rightarrow> f x)"

section \<open>Evaluation context (\<^verbatim>\<open>bvm_eval.h\<close>)\<close>

text \<open>Pointers to externally owned objects are opaque addresses.\<close>

type_synonym pointer = nat

type_synonym float3 = "float \<times> float \<times> float"

definition BVM_STACK_SIZE :: nat where
  "BVM_STACK_SIZE = 4095"

record EvalGlobals =
  objects :: "pointer list"

record EffectorEvalData =
  object :: pointer
  position :: float3
  velocity :: float3

record TextureEvalData =
  co :: float3
  dxt :: float3
  dyt :: float3
  cfra :: "32 word"
  osatex :: "32 word"

record ModifierEvalData =
  base_mesh :: "pointer option"

record EvalData =
  effector :: EffectorEvalData
  texture :: TextureEvalData
  modifier :: ModifierEvalData
  iteration :: "32 word"

text \<open>
  Modelled from the spec: the \<^verbatim>\<open>ExecutionContext\<close> class handed to every call body is declared
  in a header that is not among the sources (\<^verbatim>\<open>FN_tuple_call.hpp\<close>). The spec says a body
  may consult EvalGlobals and EvalData through it, so it carries both.
\<close>

record ExecutionContext =
  ctx_globals :: EvalGlobals
  ctx_data :: EvalData

section \<open>Types, values and tuples\<close>

text \<open>
  Modelled from the spec: the type catalog and the \<^verbatim>\<open>Tuple\<close> class are declared in headers
  that are not among the sources (\<^verbatim>\<open>FN_types.hpp\<close>, \<^verbatim>\<open>FN_tuple_call.hpp\<close>). The spec: a Tuple
  is a typed value container, each slot holds exactly one value of its declared type, and
  an indexed get or set whose type disagrees with the slot's declared type fails with
  TypeMismatch; addressing beyond the bounds is OutOfRange. The declared type of a slot is
  the type of the value it holds. \<open>slot_writes\<close> is a ghost counter of the sets performed on
  the slot; no operation reads it.
\<close>

datatype type_desc = FloatType | Int32Type | FVec3Type

datatype val = FloatVal float | Int32Val "32 word" | FVec3Val float float float

fun type_of_val :: "val \<Rightarrow> type_desc" where
  "type_of_val (FloatVal _) = FloatType"
| "type_of_val (Int32Val _) = Int32Type"
| "type_of_val (FVec3Val _ _ _) = FVec3Type"

record slot =
  slot_value :: val
  slot_writes :: nat

type_synonym tuple = "slot list"

definition get_float :: "tuple \<Rightarrow> nat \<Rightarrow> error + float" where
  "get_float t i =
     (if length t \<le> i then Inl OutOfRange
      else case slot_value (t ! i) of
             FloatVal x \<Rightarrow> Inr x
           | _ \<Rightarrow> Inl TypeMismatch)"

definition set_float :: "tuple \<Rightarrow> nat \<Rightarrow> float \<Rightarrow> error + tuple" where
  "set_float t i x =
     (if length t \<le> i then Inl OutOfRange
      else case slot_value (t ! i) of
             FloatVal _ \<Rightarrow>
               Inr (t[i := \<lparr>slot_value = FloatVal x, slot_writes = Suc (slot_writes (t ! i))\<rparr>])
           | _ \<Rightarrow> Inl TypeMismatch)"

section \<open>Interpreted call bodies (\<^verbatim>\<open>scalar_math.cpp\<close>)\<close>

text \<open>
  A body's \<^verbatim>\<open>call(fn_in, fn_out, ctx)\<close> takes the input tuple, the output tuple and the
  execution context by reference; the model returns the output tuple and the context as
  the call leaves them, or the error that aborted it. The body classes have no data
  members, so there is no object state to pass.
\<close>

type_synonym call_result = "error + tuple \<times> ExecutionContext"

definition AddFloats_call :: "tuple \<Rightarrow> tuple \<Rightarrow> ExecutionContext \<Rightarrow> call_result" where
  "AddFloats_call fn_in fn_out ctx =
     bind_err (get_float fn_in 0) (\<lambda>a.
     bind_err (get_float fn_in 1) (\<lambda>b.
     bind_err (set_float fn_out 0 (float_add a b)) (\<lambda>out.
     Inr (out, ctx))))"

definition MultiplyFloats_call :: "tuple \<Rightarrow> tuple \<Rightarrow> ExecutionContext \<Rightarrow> call_result" where
  "MultiplyFloats_call fn_in fn_out ctx =
     bind_err (get_float fn_in 0) (\<lambda>a.
     bind_err (get_float fn_in 1) (\<lambda>b.
     bind_err (set_float fn_out 0 (float_mul a b)) (\<lambda>out.
     Inr (out, ctx))))"

definition MinFloats_call :: "tuple \<Rightarrow> tuple \<Rightarrow> ExecutionContext \<Rightarrow> call_result" where
  "MinFloats_call fn_in fn_out ctx =
     bind_err (get_float fn_in 0) (\<lambda>a.
     bind_err (get_float fn_in 1) (\<lambda>b.
     bind_err (set_float fn_out 0 (if float_lt a b then a else b)) (\<lambda>out.
     Inr (out, ctx))))"

definition MaxFloats_call :: "tuple \<Rightarrow> tuple \<Rightarrow> ExecutionContext \<Rightarrow> call_result" where
  "MaxFloats_call fn_in fn_out ctx =
     bind_err (get_float fn_in 0) (\<lambda>a.
     bind_err (get_float fn_in 1) (\<lambda>b.
     bind_err (set_float fn_out 0 (if float_lt a b then b else a)) (\<lambda>out.
     Inr (out, ctx))))"

text \<open>
  Modelled from the spec: the \<^verbatim>\<open>CLAMP\<close> macro comes from a header that is not among the
  sources (\<^verbatim>\<open>BLI_utildefines.h\<close>). The spec writes \<open>t = clamp(..., 0, 1)\<close>: a value below the
  lower bound becomes the lower bound, one above the upper bound becomes the upper bound,
  anything else (a NaN too, which compares false both times) is kept.
\<close>

definition CLAMP :: "float \<Rightarrow> float \<Rightarrow> float \<Rightarrow> float" where
  "CLAMP a b c = (if float_lt a b then b else if float_gt a c then c else a)"

definition MapRange_result :: "float \<Rightarrow> float \<Rightarrow> float \<Rightarrow> float \<Rightarrow> float \<Rightarrow> float" where
  "MapRange_result value from_min from_max to_min to_max =
     (let from_range = float_sub from_max from_min;
          to_range = float_sub to_max to_min
      in if float_eq from_range (float_lit 0) then to_min
         else let t = float_div (float_sub value from_min) from_range;
                  t = CLAMP t (float_lit 0) (float_lit 1)
              in float_add (float_mul t to_range) to_min)"

definition MapRange_call :: "tuple \<Rightarrow> tuple \<Rightarrow> ExecutionContext \<Rightarrow> call_result" where
  "MapRange_call fn_in fn_out ctx =
     bind_err (get_float fn_in 0) (\<lambda>value.
     bind_err (get_float fn_in 1) (\<lambda>from_min.
     bind_err (get_float fn_in 2) (\<lambda>from_max.
     bind_err (get_float fn_in 3) (\<lambda>to_min.
     bind_err (get_float fn_in 4) (\<lambda>to_max.
     bind_err (set_float fn_out 0 (MapRange_result value from_min from_max to_min to_max)) (\<lambda>out.
     Inr (out, ctx)))))))"

text \<open>
  Ghost: the number of float divisions \<^verbatim>\<open>MapRange::call\<close> performs; the only division of the
  body is in the branch taken when \<^verbatim>\<open>from_range == 0\<close> is false.
\<close>

definition MapRange_divisions :: "float \<Rightarrow> float \<Rightarrow> float \<Rightarrow> float \<Rightarrow> float \<Rightarrow> nat" where
  "MapRange_divisions value from_min from_max to_min to_max =
     (let from_range = float_sub from_max from_min
      in if float_eq from_range (float_lit 0) then 0 else 1)"

text \<open>The classes deriving from \<^verbatim>\<open>TupleCallBody\<close>, and the virtual \<^verbatim>\<open>call\<close>.\<close>

datatype TupleCallBody = AddFloats | MultiplyFloats | MinFloats | MaxFloats | MapRange

fun call :: "TupleCallBody \<Rightarrow> tuple \<Rightarrow> tuple \<Rightarrow> ExecutionContext \<Rightarrow> call_result" where
  "call AddFloats = AddFloats_call"
| "call MultiplyFloats = MultiplyFloats_call"
| "call MinFloats = MinFloats_call"
| "call MaxFloats = MaxFloats_call"
| "call MapRange = MapRange_call"


text \<open>
  A fresh float slot, the test that a slot is declared float, and the tuple after exactly
  one set of slot \<open>i\<close>: the value replaced, the ghost counter one higher, every other slot
  untouched.
\<close>

definition float_slot :: "float \<Rightarrow> slot" where
  "float_slot x = \<lparr>slot_value = FloatVal x, slot_writes = 0\<rparr>"

definition holds_float :: "tuple \<Rightarrow> nat \<Rightarrow> bool" where
  "holds_float t i = (i < length t \<and> type_of_val (slot_value (t ! i)) = FloatType)"

definition written_once :: "tuple \<Rightarrow> nat \<Rightarrow> float \<Rightarrow> tuple" where
  "written_once t i x =
     t[i := \<lparr>slot_value = FloatVal x, slot_writes = Suc (slot_writes (t ! i))\<rparr>]"

definition float_tuple :: "float list \<Rightarrow> tuple" where
  "float_tuple xs = map float_slot xs"

text \<open>
  The default-constructed \<^verbatim>\<open>EvalData\<close> of \<^verbatim>\<open>bvm_eval.h\<close>; the constructors leave the
  \<^verbatim>\<open>PointerRNA\<close> of the effector data unset, so it is a parameter.
\<close>

definition float3_zero :: float3 where
  "float3_zero = (float_lit 0, float_lit 0, float_lit 0)"

definition EvalData_init :: "pointer \<Rightarrow> EvalData" where
  "EvalData_init p =
     \<lparr>effector = \<lparr>object = p, position = float3_zero, velocity = float3_zero\<rparr>,
      texture = \<lparr>co = float3_zero, dxt = float3_zero, dyt = float3_zero, cfra = 0, osatex = 0\<rparr>,
      modifier = \<lparr>base_mesh = None\<rparr>,
      iteration = 0\<rparr>"

definition ExecutionContext_init :: "EvalGlobals \<Rightarrow> ExecutionContext" where
  "ExecutionContext_init g = \<lparr>ctx_globals = g, ctx_data = EvalData_init 0\<rparr>"

section \<open>Code generation bodies (\<^verbatim>\<open>scalar_math.cpp\<close>)\<close>

text \<open>
  \<^verbatim>\<open>GenAddFloats::build_ir\<close> emits LLVM IR through an \<^verbatim>\<open>llvm::IRBuilder\<close>. LLVM is an
  external library; what the body uses of it is modelled directly: an SSA value is a
  function argument or the result of an emitted instruction, the builder is the list of
  instructions emitted so far, \<^verbatim>\<open>CreateFAdd\<close> appends one \<^verbatim>\<open>fadd\<close> and returns its result,
  and running the emitted instructions in order evaluates \<^verbatim>\<open>fadd\<close> as the float addition.
  \<^verbatim>\<open>LLVMValues\<close> is a vector of values; indexing it out of range is OutOfRange.
\<close>

datatype llvm_value = Argument nat | Result nat

datatype llvm_instr = FAdd llvm_value llvm_value

type_synonym IRBuilder = "llvm_instr list"

type_synonym LLVMValues = "llvm_value list"

definition CreateFAdd :: "IRBuilder \<Rightarrow> llvm_value \<Rightarrow> llvm_value \<Rightarrow> llvm_value \<times> IRBuilder" where
  "CreateFAdd builder l r = (Result (length builder), builder @ [FAdd l r])"

definition values_at :: "LLVMValues \<Rightarrow> nat \<Rightarrow> error + llvm_value" where
  "values_at vs i = (if i < length vs then Inr (vs ! i) else Inl OutOfRange)"

definition GenAddFloats_build_ir ::
  "IRBuilder \<Rightarrow> LLVMValues \<Rightarrow> LLVMValues \<Rightarrow> error + IRBuilder \<times> LLVMValues" where
  "GenAddFloats_build_ir builder inputs r_outputs =
     bind_err (values_at inputs 0) (\<lambda>i0.
     bind_err (values_at inputs 1) (\<lambda>i1.
     (case CreateFAdd builder i0 i1 of
        (output, builder') \<Rightarrow> Inr (builder', r_outputs @ [output]))))"

datatype LLVMBuildIRBody = GenAddFloats

fun build_ir ::
  "LLVMBuildIRBody \<Rightarrow> IRBuilder \<Rightarrow> LLVMValues \<Rightarrow> LLVMValues \<Rightarrow> error + IRBuilder \<times> LLVMValues" where
  "build_ir GenAddFloats = GenAddFloats_build_ir"

definition llvm_value_of :: "float list \<Rightarrow> float list \<Rightarrow> llvm_value \<Rightarrow> error + float" where
  "llvm_value_of args results v =
     (case v of
        Argument k \<Rightarrow> if k < length args then Inr (args ! k) else Inl OutOfRange
      | Result k \<Rightarrow> if k < length results then Inr (results ! k) else Inl OutOfRange)"

fun run_instrs :: "float list \<Rightarrow> float list \<Rightarrow> llvm_instr list \<Rightarrow> error + float list" where
  "run_instrs args results [] = Inr results"
| "run_instrs args results (FAdd l r # rest) =
     bind_err (llvm_value_of args results l) (\<lambda>x.
     bind_err (llvm_value_of args results r) (\<lambda>y.
     run_instrs args (results @ [float_add x y]) rest))"

fun collect :: "(error + 'a) list \<Rightarrow> error + 'a list" where
  "collect [] = Inr []"
| "collect (r # rs) = bind_err r (\<lambda>x. bind_err (collect rs) (\<lambda>xs. Inr (x # xs)))"

text \<open>
  Running a codegen body on argument values: build the IR from an empty builder with one
  argument value per input, run it, read the produced output values.
\<close>

definition run_build_ir :: "LLVMBuildIRBody \<Rightarrow> float list \<Rightarrow> error + float list" where
  "run_build_ir body args =
     bind_err (build_ir body [] (map Argument [0..<length args]) []) (\<lambda>(builder, outputs).
     bind_err (run_instrs args [] builder) (\<lambda>results.
     collect (map (llvm_value_of args results) outputs)))"


section \<open>Signatures and functions\<close>

record Parameter =
  param_name :: string
  param_type :: type_desc

definition InputParameter :: "string \<Rightarrow> type_desc \<Rightarrow> Parameter" where
  "InputParameter name ty = \<lparr>param_name = name, param_type = ty\<rparr>"

definition OutputParameter :: "string \<Rightarrow> type_desc \<Rightarrow> Parameter" where
  "OutputParameter name ty = \<lparr>param_name = name, param_type = ty\<rparr>"

definition get_float_type :: type_desc where
  "get_float_type = FloatType"

record Signature =
  sig_inputs :: "Parameter list"
  sig_outputs :: "Parameter list"

text \<open>
  Modelled from the spec: the \<^verbatim>\<open>Signature\<close> constructor is declared in a header that is not
  among the sources. The spec: construction validates that parameter names are unique
  within each direction and fails with DuplicateParameter otherwise.
\<close>

definition Signature_construct :: "Parameter list \<Rightarrow> Parameter list \<Rightarrow> error + Signature" where
  "Signature_construct inputs outputs =
     (if distinct (map param_name inputs) \<and> distinct (map param_name outputs)
      then Inr \<lparr>sig_inputs = inputs, sig_outputs = outputs\<rparr>
      else Inl DuplicateParameter)"

text \<open>
  Modelled from the spec: the \<^verbatim>\<open>Function\<close> class (\<^verbatim>\<open>SharedFunction::New\<close>, \<^verbatim>\<open>add_body\<close>) is
  declared in a header that is not among the sources. The spec: a Function is a name, an
  immutable Signature and the call bodies attached to it, keyed by strategy; \<^verbatim>\<open>add_body\<close>
  attaches a body under the strategy of its class. The spec leaves open which body wins
  when two are attached under one strategy; here the last one does.
\<close>

datatype FunctionBody = TupleCall TupleCallBody | LLVMBuildIR LLVMBuildIRBody

record Function =
  fn_name :: string
  fn_signature :: Signature
  fn_tuple_call :: "TupleCallBody option"
  fn_llvm_build_ir :: "LLVMBuildIRBody option"

definition SharedFunction_New :: "string \<Rightarrow> Signature \<Rightarrow> Function" where
  "SharedFunction_New name sig =
     \<lparr>fn_name = name, fn_signature = sig, fn_tuple_call = None, fn_llvm_build_ir = None\<rparr>"

fun add_body :: "Function \<Rightarrow> FunctionBody \<Rightarrow> Function" where
  "add_body fn (TupleCall b) = fn\<lparr>fn_tuple_call := Some b\<rparr>"
| "add_body fn (LLVMBuildIR b) = fn\<lparr>fn_llvm_build_ir := Some b\<rparr>"

text \<open>
  Modelled from the spec: evaluating a Function under a strategy for which it has no body
  fails with UnresolvedBody; otherwise the attached body runs.
\<close>

definition eval_interpreted :: "Function \<Rightarrow> tuple \<Rightarrow> tuple \<Rightarrow> ExecutionContext \<Rightarrow> call_result" where
  "eval_interpreted fn fn_in fn_out ctx =
     (case fn_tuple_call fn of
        None \<Rightarrow> Inl UnresolvedBody
      | Some body \<Rightarrow> call body fn_in fn_out ctx)"

definition eval_codegen :: "Function \<Rightarrow> float list \<Rightarrow> error + float list" where
  "eval_codegen fn args =
     (case fn_llvm_build_ir fn of
        None \<Rightarrow> Inl UnresolvedBody
      | Some body \<Rightarrow> run_build_ir body args)"

section \<open>The built-in functions (\<^verbatim>\<open>scalar_math.cpp\<close>)\<close>

definition get_simple_math_function :: "string \<Rightarrow> error + Function" where
  "get_simple_math_function name =
     bind_err (Signature_construct
        [InputParameter ''A'' get_float_type,
         InputParameter ''B'' get_float_type]
        [OutputParameter ''Result'' get_float_type]) (\<lambda>sig.
     Inr (SharedFunction_New name sig))"

text \<open>
  The blocks of the \<^verbatim>\<open>LAZY_INIT_REF__NO_ARG\<close> definitions. In \<^verbatim>\<open>add_floats\<close> the line
  attaching \<^verbatim>\<open>AddFloats\<close> is commented out in the source, so only \<^verbatim>\<open>GenAddFloats\<close> is attached.
\<close>

definition add_floats_init :: "error + Function" where
  "add_floats_init =
     bind_err (get_simple_math_function ''Add Floats'') (\<lambda>fn.
     Inr (add_body fn (LLVMBuildIR GenAddFloats)))"

definition multiply_floats_init :: "error + Function" where
  "multiply_floats_init =
     bind_err (get_simple_math_function ''Multiply Floats'') (\<lambda>fn.
     Inr (add_body fn (TupleCall MultiplyFloats)))"

definition min_floats_init :: "error + Function" where
  "min_floats_init =
     bind_err (get_simple_math_function ''Minimum'') (\<lambda>fn.
     Inr (add_body fn (TupleCall MinFloats)))"

definition max_floats_init :: "error + Function" where
  "max_floats_init =
     bind_err (get_simple_math_function ''Maximum'') (\<lambda>fn.
     Inr (add_body fn (TupleCall MaxFloats)))"

definition map_range_init :: "error + Function" where
  "map_range_init =
     bind_err (Signature_construct
        [InputParameter ''Value'' get_float_type,
         InputParameter ''From Min'' get_float_type,
         InputParameter ''From Max'' get_float_type,
         InputParameter ''To Min'' get_float_type,
         InputParameter ''To Max'' get_float_type]
        [OutputParameter ''Value'' get_float_type]) (\<lambda>sig.
     Inr (add_body (SharedFunction_New ''Map Range'' sig) (TupleCall MapRange)))"

text \<open>
  Modelled from the spec: the \<^verbatim>\<open>LAZY_INIT_REF__NO_ARG\<close> macro comes from a header that is not
  among the sources (\<^verbatim>\<open>BLI_lazy_init.hpp\<close>). The spec: each built-in is constructed once,
  lazily, on first use, and shared thereafter by reference. Each accessor has a cell that
  is empty until its first call; the first call runs the block, stores the new object and
  returns a reference to it, every later call returns the stored reference. A reference is
  the index of the object among those constructed so far.
\<close>

datatype builtin = Add_Floats | Multiply_Floats | Min_Floats | Max_Floats | Map_Range

fun init_block :: "builtin \<Rightarrow> error + Function" where
  "init_block Add_Floats = add_floats_init"
| "init_block Multiply_Floats = multiply_floats_init"
| "init_block Min_Floats = min_floats_init"
| "init_block Max_Floats = max_floats_init"
| "init_block Map_Range = map_range_init"

record lazy_store =
  constructed :: "Function list"
  cell :: "builtin \<Rightarrow> nat option"

definition empty_store :: lazy_store where
  "empty_store = \<lparr>constructed = [], cell = (\<lambda>_. None)\<rparr>"

definition lazy_init :: "builtin \<Rightarrow> lazy_store \<Rightarrow> error + nat \<times> lazy_store" where
  "lazy_init b st =
     (case cell st b of
        Some r \<Rightarrow> Inr (r, st)
      | None \<Rightarrow>
          bind_err (init_block b) (\<lambda>fn.
          Inr (length (constructed st),
               st\<lparr>constructed := constructed st @ [fn],
                  cell := (cell st)(b \<mapsto> length (constructed st))\<rparr>)))"

definition add_floats :: "lazy_store \<Rightarrow> error + nat \<times> lazy_store" where
  "add_floats = lazy_init Add_Floats"

definition multiply_floats :: "lazy_store \<Rightarrow> error + nat \<times> lazy_store" where
  "multiply_floats = lazy_init Multiply_Floats"

definition min_floats :: "lazy_store \<Rightarrow> error + nat \<times> lazy_store" where
  "min_floats = lazy_init Min_Floats"

definition max_floats :: "lazy_store \<Rightarrow> error + nat \<times> lazy_store" where
  "max_floats = lazy_init Max_Floats"

definition map_range :: "lazy_store \<Rightarrow> error + nat \<times> lazy_store" where
  "map_range = lazy_init Map_Range"

text \<open>A sequence of accessor calls, returning the reference each call returned.\<close>

fun access_all :: "builtin list \<Rightarrow> lazy_store \<Rightarrow> error + nat list \<times> lazy_store" where
  "access_all [] st = Inr ([], st)"
| "access_all (b # bs) st =
     bind_err (lazy_init b st) (\<lambda>(r, st').
     bind_err (access_all bs st') (\<lambda>(rs, st'').
     Inr (r # rs, st'')))"


section \<open>The stack evaluator (\<^verbatim>\<open>bvm_eval.h\<close>)\<close>

text \<open>
  Modelled from the spec: \<^verbatim>\<open>bvm_eval.h\<close> declares \<^verbatim>\<open>EvalContext::eval_expression\<close> and
  \<^verbatim>\<open>eval_instructions\<close> and defines \<^verbatim>\<open>BVM_STACK_SIZE\<close>; their bodies and the instruction
  encoding are not among the sources. The spec: the stack has 4095 numeric slots; an
  instruction reads its operands from fixed stack offsets, wraps the stack region as input
  and output tuple views, dispatches to the addressed Function's interpreted body and
  writes the results back at fixed output offsets, until a terminal instruction is
  reached; an access outside \<open>[0, 4095)\<close> must fail fast and never clamp or wrap. An
  offset is a C \<^verbatim>\<open>int\<close>, so it may be negative. A stream that ends without a terminal
  instruction, or an entry point outside the stream, is OutOfRange.
\<close>

type_synonym stack = "float list"

definition stack_load :: "stack \<Rightarrow> int \<Rightarrow> error + float" where
  "stack_load st off =
     (if 0 \<le> off \<and> off < int BVM_STACK_SIZE \<and> nat off < length st
      then Inr (st ! nat off) else Inl StackOverflow)"

definition stack_store :: "stack \<Rightarrow> int \<Rightarrow> float \<Rightarrow> error + stack" where
  "stack_store st off x =
     (if 0 \<le> off \<and> off < int BVM_STACK_SIZE \<and> nat off < length st
      then Inr (st[nat off := x]) else Inl StackOverflow)"

fun store_all :: "stack \<Rightarrow> (int \<times> float) list \<Rightarrow> error + stack" where
  "store_all st [] = Inr st"
| "store_all st ((off, x) # rest) = bind_err (stack_store st off x) (\<lambda>st'. store_all st' rest)"

datatype instruction = Call Function "int list" "int list" | End

definition eval_instruction ::
  "EvalGlobals \<Rightarrow> stack \<Rightarrow> Function \<Rightarrow> int list \<Rightarrow> int list \<Rightarrow> error + stack" where
  "eval_instruction globals st fn ins outs =
     bind_err (collect (map (stack_load st) ins)) (\<lambda>xs.
     bind_err (collect (map (stack_load st) outs)) (\<lambda>ys.
     bind_err (eval_interpreted fn (map float_slot xs) (map float_slot ys)
                 (ExecutionContext_init globals)) (\<lambda>(out, ctx).
     bind_err (collect (map (get_float out) [0..<length outs])) (\<lambda>rs.
     store_all st (zip outs rs)))))"

fun eval_instructions :: "EvalGlobals \<Rightarrow> instruction list \<Rightarrow> stack \<Rightarrow> error + stack" where
  "eval_instructions globals [] st = Inl OutOfRange"
| "eval_instructions globals (End # rest) st = Inr st"
| "eval_instructions globals (Call fn ins outs # rest) st =
     bind_err (eval_instruction globals st fn ins outs) (\<lambda>st'.
     eval_instructions globals rest st')"

definition eval_expression ::
  "EvalGlobals \<Rightarrow> instruction list \<Rightarrow> int \<Rightarrow> stack \<Rightarrow> error + stack" where
  "eval_expression globals fn entry_point st =
     (if 0 \<le> entry_point \<and> nat entry_point < length fn
      then eval_instructions globals (drop (nat entry_point) fn) st
      else Inl OutOfRange)"

text \<open>The instructions a run from the head of a stream executes: those before the first terminal one.\<close>

definition executed :: "instruction list \<Rightarrow> instruction list" where
  "executed is = takeWhile (\<lambda>i. i \<noteq> End) is"

fun offsets :: "instruction \<Rightarrow> int list" where
  "offsets (Call fn ins outs) = ins @ outs"
| "offsets End = []"

definition in_stack :: "int \<Rightarrow> bool" where
  "in_stack off = (0 \<le> off \<and> off < 4095)"


section \<open>Auxiliary notions for the properties\<close>

text \<open>The number of declared inputs of the function each body class is written for.\<close>

definition input_count :: "TupleCallBody \<Rightarrow> nat" where
  "input_count body = (case body of MapRange \<Rightarrow> 5 | _ \<Rightarrow> 2)"

text \<open>Two tuples hold equal values in their first \<open>n\<close> slots (the ghost counters may differ).\<close>

definition same_inputs :: "nat \<Rightarrow> tuple \<Rightarrow> tuple \<Rightarrow> bool" where
  "same_inputs n t t' =
     (n \<le> length t \<and> n \<le> length t' \<and> (\<forall>i<n. slot_value (t ! i) = slot_value (t' ! i)))"

text \<open>
  The invariant of the lazy store: every filled cell refers to an object that is what the
  accessor's block builds, and there are as many objects as filled cells.
\<close>

definition store_ok :: "lazy_store \<Rightarrow> bool" where
  "store_ok st =
     ((\<forall>b r. cell st b = Some r \<longrightarrow>
          r < length (constructed st) \<and> init_block b = Inr (constructed st ! r))
      \<and> length (constructed st) = card (dom (cell st)))"

text \<open>
  Used as concrete inputs: the signature \<^verbatim>\<open>get_simple_math_function\<close> passes to the
  constructor, and the Function the \<^verbatim>\<open>multiply_floats\<close> block builds.
\<close>

definition simple_math_signature :: Signature where
  "simple_math_signature =
     \<lparr>sig_inputs = [InputParameter ''A'' get_float_type, InputParameter ''B'' get_float_type],
      sig_outputs = [OutputParameter ''Result'' get_float_type]\<rparr>"

definition multiply_floats_fn :: Function where
  "multiply_floats_fn =
     add_body (SharedFunction_New ''Multiply Floats'' simple_math_signature) (TupleCall MultiplyFloats)"

section \<open>Evaluating floats\<close>

lemmas f32_eval =
  float_lit_def f32_round_def signed_value_def f32_round_mag_def f32_nearest_def f32_exponent_def
  f32_exponent_from.simps pow2_def round_half_even_def Let_def float_sub_def

lemma add_2_3: "float_add (float_lit 2) (float_lit 3) = float_lit 5"
  by (simp add: f32_eval)

lemma mul_2_3: "float_mul (float_lit 2) (float_lit 3) = float_lit 6"
  by (simp add: f32_eval)

lemma lt_2_3: "float_lt (float_lit 2) (float_lit 3)"
  by (simp add: float_lit_def signed_value_def)

lemma float_lt_lesser:
  "a \<noteq> NaN \<Longrightarrow> b \<noteq> NaN \<Longrightarrow>
   float_le (if float_lt a b then a else b) a \<and> float_le (if float_lt a b then a else b) b"
  by (cases a; cases b) (auto simp: float_le_def)

lemma float_lt_greater:
  "a \<noteq> NaN \<Longrightarrow> b \<noteq> NaN \<Longrightarrow>
   float_le a (if float_lt a b then b else a) \<and> float_le b (if float_lt a b then b else a)"
  by (cases a; cases b) (auto simp: float_le_def)

section \<open>Properties of rounding\<close>

lemma pow2_powi: "pow2 e = 2 powi e"
  by (simp add: pow2_def power_int_def power_one_over)

lemma pow2_pos: "0 < pow2 e"
  by (simp add: pow2_powi)

lemma pow2_add: "pow2 (a + b) = pow2 a * pow2 b"
  by (simp add: pow2_powi power_int_add)

lemma pow2_mono: "a \<le> b \<Longrightarrow> pow2 a \<le> pow2 b"
  by (simp add: pow2_powi power_int_increasing)

lemma pow2_nat: "0 \<le> e \<Longrightarrow> pow2 e = of_int (2 ^ nat e)"
  by (simp add: pow2_def)

lemma f32_exponent_from_range:
  "- 126 \<le> e0 \<Longrightarrow> - 126 \<le> f32_exponent_from e0 x \<and> f32_exponent_from e0 x \<le> e0"
proof (induction e0 x rule: f32_exponent_from.induct)
  case (1 e x)
  show ?case
  proof (cases "e \<le> - 126")
    case True
    with "1.prems" show ?thesis by (simp add: f32_exponent_from.simps)
  next
    case False
    show ?thesis
    proof (cases "pow2 e \<le> x")
      case True
      with False show ?thesis by (simp add: f32_exponent_from.simps)
    next
      case nle: False
      from False have "- 126 \<le> e - 1" by simp
      from "1.IH" [OF False nle this] False nle show ?thesis
        by (simp add: f32_exponent_from.simps [of e])
    qed
  qed
qed

lemma f32_exponent_from_lower:
  "- 126 < f32_exponent_from e0 x \<Longrightarrow> pow2 (f32_exponent_from e0 x) \<le> x"
proof (induction e0 x rule: f32_exponent_from.induct)
  case (1 e x)
  show ?case
  proof (cases "e \<le> - 126")
    case True
    with "1.prems" show ?thesis by (simp add: f32_exponent_from.simps)
  next
    case False
    show ?thesis
    proof (cases "pow2 e \<le> x")
      case True
      with False show ?thesis by (simp add: f32_exponent_from.simps)
    next
      case nle: False
      from False nle have eq: "f32_exponent_from e x = f32_exponent_from (e - 1) x"
        by (simp add: f32_exponent_from.simps [of e])
      from "1.IH" [OF False nle] "1.prems" eq show ?thesis by simp
    qed
  qed
qed

lemma f32_exponent_from_upper:
  "f32_exponent_from e0 x < e0 \<Longrightarrow> x < pow2 (f32_exponent_from e0 x + 1)"
proof (induction e0 x rule: f32_exponent_from.induct)
  case (1 e x)
  show ?case
  proof (cases "e \<le> - 126")
    case True
    with "1.prems" show ?thesis by (simp add: f32_exponent_from.simps)
  next
    case False
    show ?thesis
    proof (cases "pow2 e \<le> x")
      case True
      with False "1.prems" show ?thesis by (simp add: f32_exponent_from.simps)
    next
      case nle: False
      from False nle have eq: "f32_exponent_from e x = f32_exponent_from (e - 1) x"
        by (simp add: f32_exponent_from.simps [of e])
      show ?thesis
      proof (cases "f32_exponent_from (e - 1) x < e - 1")
        case True
        from "1.IH" [OF False nle True] eq show ?thesis by simp
      next
        case False2: False
        have "- 126 \<le> e - 1" using False by simp
        from f32_exponent_from_range [OF this, of x] False2
        have "f32_exponent_from (e - 1) x = e - 1" by simp
        with eq nle show ?thesis by simp
      qed
    qed
  qed
qed

lemma f32_exponent_range: "- 126 \<le> f32_exponent x \<and> f32_exponent x \<le> 127"
  unfolding f32_exponent_def by (rule f32_exponent_from_range) simp

lemma f32_exponent_lower: "- 126 < f32_exponent x \<Longrightarrow> pow2 (f32_exponent x) \<le> x"
  unfolding f32_exponent_def by (rule f32_exponent_from_lower)

lemma f32_exponent_upper: "f32_exponent x < 127 \<Longrightarrow> x < pow2 (f32_exponent x + 1)"
  unfolding f32_exponent_def by (rule f32_exponent_from_upper)

lemma round_half_even_floor: "\<lfloor>r\<rfloor> \<le> round_half_even r \<and> round_half_even r \<le> \<lfloor>r\<rfloor> + 1"
  by (simp add: round_half_even_def Let_def)

lemma round_half_even_of_int: "round_half_even (of_int n) = n"
  by (simp add: round_half_even_def Let_def)

lemma round_half_even_ge: "of_int n \<le> r \<Longrightarrow> n \<le> round_half_even r"
proof -
  assume "of_int n \<le> r"
  then have "n \<le> \<lfloor>r\<rfloor>" by (simp add: le_floor_iff)
  with round_half_even_floor [of r] show ?thesis by simp
qed

lemma round_half_even_le: "r \<le> of_int n \<Longrightarrow> round_half_even r \<le> n"
proof (cases "r = of_int n")
  case True
  then show ?thesis by (simp add: round_half_even_of_int)
next
  case False
  assume "r \<le> of_int n"
  with False have "r < of_int n" by simp
  then have "\<lfloor>r\<rfloor> < n" by (simp add: floor_less_iff)
  with round_half_even_floor [of r] show ?thesis by simp
qed

lemma round_half_even_mono: "r \<le> r' \<Longrightarrow> round_half_even r \<le> round_half_even r'"
proof (cases "\<lfloor>r\<rfloor> = \<lfloor>r'\<rfloor>")
  case True
  assume "r \<le> r'"
  then have "r - of_int \<lfloor>r'\<rfloor> \<le> r' - of_int \<lfloor>r'\<rfloor>" by simp
  then show ?thesis
    unfolding round_half_even_def Let_def True by auto
next
  case False
  assume "r \<le> r'"
  then have "\<lfloor>r\<rfloor> \<le> \<lfloor>r'\<rfloor>" by (rule floor_mono)
  with False have "\<lfloor>r\<rfloor> + 1 \<le> \<lfloor>r'\<rfloor>" by simp
  with round_half_even_floor [of r] round_half_even_floor [of r'] show ?thesis by simp
qed

lemma pow2_24: "of_int (2 ^ 24) * pow2 (e - 23) = pow2 (e + 1)"
proof -
  have "pow2 24 = of_int (2 ^ 24)" by (simp add: pow2_def)
  moreover have "pow2 (e + 1) = pow2 24 * pow2 (e - 23)"
    using pow2_add [of 24 "e - 23"] by (simp add: algebra_simps)
  ultimately show ?thesis by simp
qed

lemma pow2_23: "of_int (2 ^ 23) * pow2 (e - 23) = pow2 e"
proof -
  have "pow2 23 = of_int (2 ^ 23)" by (simp add: pow2_def)
  moreover have "pow2 e = pow2 23 * pow2 (e - 23)"
    using pow2_add [of 23 "e - 23"] by (simp add: algebra_simps)
  ultimately show ?thesis by simp
qed

lemma f32_nearest_lower:
  assumes "- 126 < f32_exponent x"
  shows "pow2 (f32_exponent x) \<le> f32_nearest x"
proof -
  let ?q = "pow2 (f32_exponent x - 23)"
  have q: "0 < ?q" by (rule pow2_pos)
  have "of_int (2 ^ 23) * ?q \<le> x"
    using f32_exponent_lower [OF assms] by (simp only: pow2_23)
  then have "of_int (2 ^ 23) \<le> x / ?q" using q by (simp add: le_divide_eq)
  then have "2 ^ 23 \<le> round_half_even (x / ?q)" by (rule round_half_even_ge)
  then have "(of_int (2 ^ 23) :: real) \<le> of_int (round_half_even (x / ?q))"
    by (simp only: of_int_le_iff)
  then have "of_int (2 ^ 23) * ?q \<le> of_int (round_half_even (x / ?q)) * ?q"
    using q by (intro mult_right_mono) simp_all
  then show ?thesis by (simp only: pow2_23 f32_nearest_def)
qed

lemma f32_nearest_upper:
  assumes "f32_exponent x < 127"
  shows "f32_nearest x \<le> pow2 (f32_exponent x + 1)"
proof -
  let ?q = "pow2 (f32_exponent x - 23)"
  have q: "0 < ?q" by (rule pow2_pos)
  have "x \<le> of_int (2 ^ 24) * ?q"
    using f32_exponent_upper [OF assms] by (simp only: pow2_24)
  then have "x / ?q \<le> of_int (2 ^ 24)" using q by (simp add: divide_le_eq)
  then have "round_half_even (x / ?q) \<le> 2 ^ 24" by (rule round_half_even_le)
  then have "(of_int (round_half_even (x / ?q)) :: real) \<le> of_int (2 ^ 24)"
    by (simp only: of_int_le_iff)
  then have "of_int (round_half_even (x / ?q)) * ?q \<le> of_int (2 ^ 24) * ?q"
    using q by (intro mult_right_mono) simp_all
  then show ?thesis by (simp only: pow2_24 f32_nearest_def)
qed

lemma f32_nearest_nonneg: "0 \<le> x \<Longrightarrow> 0 \<le> f32_nearest x"
proof -
  assume "0 \<le> x"
  let ?q = "pow2 (f32_exponent x - 23)"
  have q: "0 < ?q" by (rule pow2_pos)
  with \<open>0 \<le> x\<close> have "of_int 0 \<le> x / ?q" by simp
  then have "0 \<le> round_half_even (x / ?q)" by (rule round_half_even_ge)
  then show ?thesis using q by (simp add: f32_nearest_def)
qed

lemma f32_exponent_mono:
  assumes "x \<le> y"
  shows "f32_exponent x \<le> f32_exponent y"
proof (rule ccontr)
  assume "\<not> f32_exponent x \<le> f32_exponent y"
  then have lt: "f32_exponent y < f32_exponent x" by simp
  with f32_exponent_range [of y] have "- 126 < f32_exponent x" by simp
  then have "pow2 (f32_exponent x) \<le> x" by (rule f32_exponent_lower)
  moreover from lt f32_exponent_range [of x] have "f32_exponent y < 127" by simp
  then have "y < pow2 (f32_exponent y + 1)" by (rule f32_exponent_upper)
  moreover from lt have "pow2 (f32_exponent y + 1) \<le> pow2 (f32_exponent x)"
    by (intro pow2_mono) simp
  ultimately show False using assms by simp
qed

lemma f32_nearest_mono:
  assumes "x \<le> y"
  shows "f32_nearest x \<le> f32_nearest y"
proof (cases "f32_exponent x = f32_exponent y")
  case True
  let ?q = "pow2 (f32_exponent y - 23)"
  have q: "0 < ?q" by (rule pow2_pos)
  with assms have "x / ?q \<le> y / ?q" by (simp add: divide_right_mono)
  then have "round_half_even (x / ?q) \<le> round_half_even (y / ?q)" by (rule round_half_even_mono)
  then have "(of_int (round_half_even (x / ?q)) :: real) \<le> of_int (round_half_even (y / ?q))"
    by (simp only: of_int_le_iff)
  then have "of_int (round_half_even (x / ?q)) * ?q \<le> of_int (round_half_even (y / ?q)) * ?q"
    using q by (intro mult_right_mono) simp_all
  then show ?thesis by (simp add: f32_nearest_def True)
next
  case False
  with f32_exponent_mono [OF assms] have lt: "f32_exponent x < f32_exponent y" by simp
  with f32_exponent_range [of y] have "f32_exponent x < 127" by simp
  then have "f32_nearest x \<le> pow2 (f32_exponent x + 1)" by (rule f32_nearest_upper)
  also from lt have "\<dots> \<le> pow2 (f32_exponent y)" by (intro pow2_mono) simp
  also have "\<dots> \<le> f32_nearest y"
  proof (rule f32_nearest_lower)
    from lt f32_exponent_range [of x] show "- 126 < f32_exponent y" by simp
  qed
  finally show ?thesis .
qed

lemma f32_exponent_unique:
  assumes "- 126 \<le> e" and "e \<le> 127"
    and "- 126 < e \<Longrightarrow> pow2 e \<le> y" and "e < 127 \<Longrightarrow> y < pow2 (e + 1)"
  shows "f32_exponent y = e"
proof (rule ccontr)
  assume ne: "f32_exponent y \<noteq> e"
  show False
  proof (cases "e < f32_exponent y")
    case True
    with assms(1) have "- 126 < f32_exponent y" by simp
    then have "pow2 (f32_exponent y) \<le> y" by (rule f32_exponent_lower)
    moreover from True f32_exponent_range [of y] have "e < 127" by simp
    then have "y < pow2 (e + 1)" by (rule assms(4))
    moreover from True have "pow2 (e + 1) \<le> pow2 (f32_exponent y)" by (intro pow2_mono) simp
    ultimately show False by simp
  next
    case False
    with ne have lt: "f32_exponent y < e" by simp
    with f32_exponent_range [of y] have "- 126 < e" by simp
    then have "pow2 e \<le> y" by (rule assms(3))
    moreover from lt assms(2) have "f32_exponent y < 127" by simp
    then have "y < pow2 (f32_exponent y + 1)" by (rule f32_exponent_upper)
    moreover from lt have "pow2 (f32_exponent y + 1) \<le> pow2 e" by (intro pow2_mono) simp
    ultimately show False by simp
  qed
qed

lemma f32_quantum_ge: "pow2 (- 149) \<le> pow2 (f32_exponent x - 23)"
  using f32_exponent_range [of x] by (intro pow2_mono) simp

lemma f32_quantum_le: "0 < x \<Longrightarrow> pow2 (- 149) \<le> x \<Longrightarrow> pow2 (f32_exponent x - 23) \<le> x"
proof (cases "- 126 < f32_exponent x")
  case True
  have "pow2 (f32_exponent x - 23) \<le> pow2 (f32_exponent x)" by (intro pow2_mono) simp
  also have "\<dots> \<le> x" using True by (rule f32_exponent_lower)
  finally show ?thesis .
next
  case False
  assume "pow2 (- 149) \<le> x"
  moreover from False f32_exponent_range [of x] have "f32_exponent x = - 126" by simp
  ultimately show ?thesis by simp
qed

lemma f32_round_mag_grid:
  assumes "f32_round_mag x = Some y"
  shows "\<exists>n. y = of_int n * pow2 (- 149)"
proof -
  let ?e = "f32_exponent x"
  let ?q = "pow2 (?e - 23)"
  from assms have y: "y = of_int (round_half_even (x / ?q)) * ?q"
    by (simp add: f32_round_mag_def f32_nearest_def split: if_splits)
  have "0 \<le> ?e + 126" using f32_exponent_range [of x] by simp
  then have "pow2 (?e + 126) = of_int (2 ^ nat (?e + 126))" by (rule pow2_nat)
  moreover have "?q = pow2 (?e + 126) * pow2 (- 149)"
    by (simp flip: pow2_add)
  ultimately have "y = of_int (round_half_even (x / ?q) * 2 ^ nat (?e + 126)) * pow2 (- 149)"
    using y by simp
  then show ?thesis by blast
qed

lemma f32_round_mag_ge:
  assumes "pow2 (- 149) \<le> x" and "f32_round_mag x = Some y"
  shows "pow2 (- 149) \<le> y"
proof -
  let ?q = "pow2 (f32_exponent x - 23)"
  from assms(2) have y: "y = of_int (round_half_even (x / ?q)) * ?q"
    by (simp add: f32_round_mag_def f32_nearest_def split: if_splits)
  have q: "0 < ?q" by (rule pow2_pos)
  have x: "0 < x" using assms(1) pow2_pos [of "- 149"] by simp
  have "?q \<le> x" using x assms(1) by (rule f32_quantum_le)
  then have "of_int 1 \<le> x / ?q" using q by (simp add: le_divide_eq)
  then have "1 \<le> round_half_even (x / ?q)" by (rule round_half_even_ge)
  then have "(1::real) \<le> of_int (round_half_even (x / ?q))" by simp
  then have "1 * ?q \<le> of_int (round_half_even (x / ?q)) * ?q"
    using q by (intro mult_right_mono) simp_all
  with f32_quantum_ge [of x] y show ?thesis by simp
qed

lemma grid_apart:
  fixes g :: real
  assumes "0 < g" and "of_int k * g \<noteq> of_int k' * g"
  shows "g \<le> \<bar>of_int k * g - of_int k' * g\<bar>"
proof -
  from assms(2) have "k \<noteq> k'" by auto
  then have "1 \<le> \<bar>k - k'\<bar>" by simp
  then have "(1::real) \<le> \<bar>of_int (k - k')\<bar>" by linarith
  then have "1 * g \<le> \<bar>of_int (k - k')\<bar> * g"
    using assms(1) by (intro mult_right_mono) simp_all
  also have "\<dots> = \<bar>of_int k * g - of_int k' * g\<bar>"
  proof -
    have "of_int k * g - of_int k' * g = of_int (k - k') * g"
      by (simp add: left_diff_distrib)
    then show ?thesis using assms(1) by (simp add: abs_mult)
  qed
  finally show ?thesis by simp
qed

lemma signed_grid:
  assumes "f32_round_mag m = Some m"
  shows "\<exists>k. signed_value s m = of_int k * pow2 (- 149)"
proof -
  from f32_round_mag_grid [OF assms] obtain n where n: "m = of_int n * pow2 (- 149)" by blast
  show ?thesis
  proof (cases s)
    case True
    with n have "signed_value s m = of_int (- n) * pow2 (- 149)" by (simp add: signed_value_def)
    then show ?thesis by blast
  next
    case False
    with n have "signed_value s m = of_int n * pow2 (- 149)" by (simp add: signed_value_def)
    then show ?thesis by blast
  qed
qed

lemma f32_round_nonzero:
  assumes "pow2 (- 149) \<le> \<bar>x\<bar>"
  shows "\<not> float_eq (f32_round zs x) (float_lit 0)"
proof -
  have x: "x \<noteq> 0" using assms pow2_pos [of "- 149"] by auto
  show ?thesis
  proof (cases "f32_round_mag \<bar>x\<bar>")
    case None
    with x show ?thesis by (simp add: f32_round_def float_lit_def)
  next
    case (Some y)
    from f32_round_mag_ge [OF assms Some] pow2_pos [of "- 149"] have "0 < y" by simp
    with x Some show ?thesis by (simp add: f32_round_def float_lit_def signed_value_def)
  qed
qed

lemma float_sub_nonzero:
  assumes "is_binary32 a" and "is_binary32 b" and "\<not> float_eq a b"
  shows "\<not> float_eq (float_sub a b) (float_lit 0)"
proof (cases a)
  case NaN
  then show ?thesis by (simp add: float_sub_def)
next
  case (Infinity s)
  with assms(3) show ?thesis by (cases b) (auto simp: float_sub_def float_lit_def)
next
  case a: (Finite s m)
  show ?thesis
  proof (cases b)
    case NaN
    with a show ?thesis by (simp add: float_sub_def)
  next
    case (Infinity s')
    with a show ?thesis by (simp add: float_sub_def float_lit_def)
  next
    case b: (Finite s' m')
    from assms(1) a obtain k where k: "signed_value s m = of_int k * pow2 (- 149)"
      using signed_grid by auto
    from assms(2) b obtain k' where k': "signed_value s' m' = of_int k' * pow2 (- 149)"
      using signed_grid by auto
    from assms(3) a b have ne: "signed_value s m \<noteq> signed_value s' m'" by simp
    have "pow2 (- 149) \<le> \<bar>signed_value s m - signed_value s' m'\<bar>"
      using grid_apart [OF pow2_pos, of k "- 149" k'] ne unfolding k k' by simp
    moreover have "signed_value s m + signed_value (\<not> s') m' = signed_value s m - signed_value s' m'"
      by (simp add: signed_value_def)
    ultimately show ?thesis
      using a b by (simp add: float_sub_def f32_round_nonzero)
  qed
qed

lemma float_sub_zero:
  assumes "is_finite a" and "is_finite b" and "float_eq a b"
  shows "float_eq (float_sub a b) (float_lit 0)"
proof -
  from assms(1) obtain s m where a: "a = Finite s m" by (cases a) auto
  from assms(2) obtain s' m' where b: "b = Finite s' m'" by (cases b) auto
  from assms(3) a b have "signed_value s m + signed_value (\<not> s') m' = 0" by (simp add: signed_value_def)
  then show ?thesis
    using a b by (simp add: float_sub_def f32_round_def float_lit_def signed_value_def)
qed

lemma float_add_commute: "float_add a b = float_add b a"
  by (cases a; cases b) (auto simp: add.commute conj_commute)

lemma pow2_strict_mono: "a < b \<Longrightarrow> pow2 a < pow2 b"
  by (simp add: pow2_powi power_int_strict_increasing)

lemma f32_nearest_0: "f32_nearest 0 = 0"
  by (simp add: f32_nearest_def round_half_even_def)

lemma f32_nearest_idem:
  assumes "f32_nearest x < pow2 128"
  shows "f32_nearest (f32_nearest x) = f32_nearest x"
proof -
  let ?e = "f32_exponent x"
  let ?q = "pow2 (?e - 23)"
  let ?n = "round_half_even (x / ?q)"
  let ?y = "f32_nearest x"
  have q: "0 < ?q" by (rule pow2_pos)
  have y: "?y = of_int ?n * ?q" by (simp add: f32_nearest_def)
  have le: "?n \<le> 2 ^ 24"
  proof (cases "?e < 127")
    case True
    from f32_nearest_upper [OF True] have "of_int ?n * ?q \<le> of_int (2 ^ 24) * ?q"
      by (simp only: y pow2_24)
    with q have "(of_int ?n :: real) \<le> of_int (2 ^ 24)" by (simp only: mult_le_cancel_right_pos)
    then show ?thesis by (simp only: of_int_le_iff)
  next
    case False
    with f32_exponent_range [of x] have e: "?e = 127" by simp
    have "pow2 128 = of_int (2 ^ 24) * ?q" using pow2_24 [of ?e] by (simp add: e)
    with assms have "of_int ?n * ?q < of_int (2 ^ 24) * ?q" by (simp only: y)
    with q have "(of_int ?n :: real) < of_int (2 ^ 24)" by (simp only: mult_less_cancel_right_pos)
    then have "?n < 2 ^ 24" by (simp only: of_int_less_iff)
    then show ?thesis by simp
  qed
  show ?thesis
  proof (cases "?n = 2 ^ 24")
    case True
    then have y1: "?y = pow2 (?e + 1)" by (simp only: y pow2_24)
    have e: "?e < 127"
    proof (rule ccontr)
      assume "\<not> ?e < 127"
      with f32_exponent_range [of x] have "?e = 127" by simp
      with y1 assms show False by simp
    qed
    have ey: "f32_exponent ?y = ?e + 1"
    proof (rule f32_exponent_unique)
      show "- 126 \<le> ?e + 1" using f32_exponent_range [of x] by simp
      show "?e + 1 \<le> 127" using e by simp
      show "pow2 (?e + 1) \<le> ?y" by (simp add: y1)
      show "?y < pow2 (?e + 1 + 1)" unfolding y1 by (rule pow2_strict_mono) simp
    qed
    have "?y / pow2 (?e + 1 - 23) = of_int (2 ^ 23)"
      using pow2_23 [of "?e + 1"] pow2_pos [of "?e + 1 - 23"] by (simp add: y1 field_simps)
    then have "f32_nearest ?y = of_int (2 ^ 23) * pow2 (?e + 1 - 23)"
      unfolding f32_nearest_def [of ?y] ey by (simp only: round_half_even_of_int)
    then show ?thesis by (simp only: pow2_23 y1)
  next
    case False
    with le have lt: "?n < 2 ^ 24" by simp
    have ey: "f32_exponent ?y = ?e"
    proof (rule f32_exponent_unique)
      show "- 126 \<le> ?e" "?e \<le> 127" using f32_exponent_range [of x] by simp_all
      show "pow2 ?e \<le> ?y" if "- 126 < ?e" using that by (rule f32_nearest_lower)
      from lt have "(of_int ?n :: real) < of_int (2 ^ 24)" by (simp only: of_int_less_iff)
      with q have "of_int ?n * ?q < of_int (2 ^ 24) * ?q" by (simp only: mult_less_cancel_right_pos)
      then show "?y < pow2 (?e + 1)" by (simp only: y pow2_24)
    qed
    have "?y / ?q = of_int ?n" using q by (simp add: y)
    then have "f32_nearest ?y = of_int ?n * ?q"
      unfolding f32_nearest_def [of ?y] ey by (simp only: round_half_even_of_int)
    then show ?thesis by (simp only: y)
  qed
qed

lemma f32_round_mag_idem:
  "f32_round_mag x = Some y \<Longrightarrow> f32_round_mag y = Some y"
  by (auto simp: f32_round_mag_def f32_nearest_idem split: if_splits)

lemma f32_round_mag_nonneg: "0 \<le> x \<Longrightarrow> f32_round_mag x = Some y \<Longrightarrow> 0 \<le> y"
  by (auto simp: f32_round_mag_def f32_nearest_nonneg split: if_splits)

lemma f32_round_mag_0: "f32_round_mag 0 = Some 0"
  using pow2_pos [of 128] by (simp add: f32_round_mag_def f32_nearest_0)

lemma f32_round_binary32: "is_binary32 (f32_round zs x)"
proof (cases "x = 0")
  case True
  then show ?thesis by (simp add: f32_round_def f32_round_mag_0)
next
  case False
  show ?thesis
  proof (cases "f32_round_mag \<bar>x\<bar>")
    case None
    with False show ?thesis by (simp add: f32_round_def)
  next
    case (Some m)
    with False f32_round_mag_idem [OF Some] f32_round_mag_nonneg [OF _ Some]
    show ?thesis by (simp add: f32_round_def)
  qed
qed

lemma f32_round_exact:
  assumes "is_binary32 (Finite s m)"
  shows "f32_round zs (signed_value s m) = Finite (if m = 0 then zs else s) m"
proof (cases "m = 0")
  case True
  then show ?thesis by (simp add: f32_round_def signed_value_def)
next
  case False
  with assms have m: "0 < m" "f32_round_mag m = Some m" by simp_all
  then have "\<bar>signed_value s m\<bar> = m" "signed_value s m \<noteq> 0" "signed_value s m < 0 \<longleftrightarrow> s"
    by (auto simp: signed_value_def)
  with m False show ?thesis by (simp add: f32_round_def)
qed

lemma f32_round_mono:
  assumes "x \<le> y"
  shows "float_le (f32_round zs x) (f32_round zs' y)"
proof -
  have n: "0 \<le> f32_nearest \<bar>x\<bar>" "0 \<le> f32_nearest \<bar>y\<bar>"
    by (simp_all add: f32_nearest_nonneg)
  consider "x < 0" "y < 0" | "x < 0" "0 \<le> y" | "0 \<le> x" "0 \<le> y"
    using assms by linarith
  then show ?thesis
  proof cases
    case 1
    with assms have "\<bar>y\<bar> \<le> \<bar>x\<bar>" by simp
    then have "f32_nearest \<bar>y\<bar> \<le> f32_nearest \<bar>x\<bar>" by (rule f32_nearest_mono)
    with 1 show ?thesis
      by (auto simp: f32_round_def f32_round_mag_def float_le_def signed_value_def)
  next
    case 2
    with n show ?thesis
      by (auto simp: f32_round_def f32_round_mag_def float_le_def signed_value_def)
  next
    case 3
    with assms have "\<bar>x\<bar> \<le> \<bar>y\<bar>" by simp
    then have "f32_nearest \<bar>x\<bar> \<le> f32_nearest \<bar>y\<bar>" by (rule f32_nearest_mono)
    with 3 n assms show ?thesis
      by (auto simp: f32_round_def f32_round_mag_def float_le_def signed_value_def)
  qed
qed

lemma float_le_Finite [simp]:
  "float_le (Finite s m) (Finite s' m') \<longleftrightarrow> signed_value s m \<le> signed_value s' m'"
  by (auto simp: float_le_def)

lemma f32_round_not_NaN: "f32_round zs x \<noteq> NaN"
  by (simp add: f32_round_def split: option.splits)

lemma signed_zero [simp]: "signed_value s 0 = 0"
  by (simp add: signed_value_def)

lemma float_le_between:
  assumes "float_le (Finite a x) p" and "float_le p (Finite b y)"
  shows "\<exists>sp mp. p = Finite sp mp \<and> signed_value a x \<le> signed_value sp mp \<and> signed_value sp mp \<le> signed_value b y"
  using assms by (cases p) (auto simp: float_le_def)

lemma float_le_value_left:
  "signed_value s m = signed_value s' m' \<Longrightarrow> float_le (Finite s m) x \<longleftrightarrow> float_le (Finite s' m') x"
  by (cases x) (auto simp: float_le_def)

lemma float_le_value_right:
  "signed_value s m = signed_value s' m' \<Longrightarrow> float_le x (Finite s m) \<longleftrightarrow> float_le x (Finite s' m')"
  by (cases x) (auto simp: float_le_def)

lemma f32_round_value:
  assumes "is_binary32 (Finite s m)"
  shows "\<exists>s'. f32_round zs (signed_value s m) = Finite s' m \<and> signed_value s' m = signed_value s m"
  using f32_round_exact [OF assms, of zs] by (auto simp: signed_value_def)

lemma CLAMP_unit:
  "CLAMP t (float_lit 0) (float_lit 1) = NaN
   \<or> (\<exists>s m. CLAMP t (float_lit 0) (float_lit 1) = Finite s m \<and> 0 \<le> signed_value s m \<and> signed_value s m \<le> 1)"
  by (cases t) (auto simp: CLAMP_def float_gt_def float_lit_def signed_value_def)

text \<open>The product with a factor in \<open>[0, 1]\<close> and the sum with \<open>to_min\<close>, on values.\<close>

lemma interpolate_between:
  assumes t: "0 \<le> signed_value st mt" "signed_value st mt \<le> 1"
    and r: "is_binary32 (Finite sr mr)"
    and m: "is_binary32 (Finite s0 m0)"
  shows "(0 \<le> signed_value sr mr \<longrightarrow>
            float_le (Finite s0 m0) (float_add (float_mul (Finite st mt) (Finite sr mr)) (Finite s0 m0))
          \<and> float_le (float_add (float_mul (Finite st mt) (Finite sr mr)) (Finite s0 m0))
               (float_add (Finite sr mr) (Finite s0 m0)))
       \<and> (signed_value sr mr \<le> 0 \<longrightarrow>
            float_le (float_add (Finite sr mr) (Finite s0 m0))
               (float_add (float_mul (Finite st mt) (Finite sr mr)) (Finite s0 m0))
          \<and> float_le (float_add (float_mul (Finite st mt) (Finite sr mr)) (Finite s0 m0)) (Finite s0 m0))"
proof -
  let ?tv = "signed_value st mt" and ?rv = "signed_value sr mr" and ?v0 = "signed_value s0 m0"
  let ?P = "float_mul (Finite st mt) (Finite sr mr)"
  have P: "?P = f32_round (st \<noteq> sr) (?tv * ?rv)" by simp
  obtain sr' where R: "f32_round (st \<noteq> sr) ?rv = Finite sr' mr" "signed_value sr' mr = ?rv"
    using f32_round_value [OF r] by blast
  obtain s0' where M: "f32_round (s0 \<and> s0) ?v0 = Finite s0' m0" "signed_value s0' m0 = ?v0"
    using f32_round_value [OF m] by blast
  have Z: "f32_round (st \<noteq> sr) 0 = Finite (st \<noteq> sr) 0" by (simp add: f32_round_def)
  show ?thesis
  proof (intro conjI impI)
    assume pos: "0 \<le> ?rv"
    with t have b: "0 \<le> ?tv * ?rv" "?tv * ?rv \<le> ?rv"
      by (simp_all add: mult_left_le_one_le)
    from f32_round_mono [OF b(1), of "st \<noteq> sr" "st \<noteq> sr"] f32_round_mono [OF b(2), of "st \<noteq> sr" "st \<noteq> sr"]
    have "float_le (Finite (st \<noteq> sr) 0) ?P" "float_le ?P (Finite sr' mr)"
      by (simp_all only: P R Z)
    from float_le_between [OF this] obtain sp mp where
      p0: "?P = Finite sp mp" "signed_value (st \<noteq> sr) 0 \<le> signed_value sp mp" "signed_value sp mp \<le> signed_value sr' mr"
      by blast
    then have p: "?P = Finite sp mp" "0 \<le> signed_value sp mp" "signed_value sp mp \<le> ?rv"
      using R(2) by simp_all
    have "float_le (f32_round (s0 \<and> s0) ?v0) (f32_round (sp \<and> s0) (signed_value sp mp + ?v0))"
      by (rule f32_round_mono) (use p(2) in simp)
    then show "float_le (Finite s0 m0) (float_add ?P (Finite s0 m0))"
      unfolding p(1) M(1) using float_le_value_left [OF M(2)] by simp
    show "float_le (float_add ?P (Finite s0 m0)) (float_add (Finite sr mr) (Finite s0 m0))"
      unfolding p(1) by (simp add: f32_round_mono p(3))
  next
    assume neg: "?rv \<le> 0"
    with t have b: "?rv \<le> ?tv * ?rv" "?tv * ?rv \<le> 0"
      by (simp_all add: mult_nonneg_nonpos mult_left_le_one_le [of "- ?rv" ?tv, simplified])
    from f32_round_mono [OF b(1), of "st \<noteq> sr" "st \<noteq> sr"] f32_round_mono [OF b(2), of "st \<noteq> sr" "st \<noteq> sr"]
    have "float_le (Finite sr' mr) ?P" "float_le ?P (Finite (st \<noteq> sr) 0)"
      by (simp_all only: P R Z)
    from float_le_between [OF this] obtain sp mp where
      p0: "?P = Finite sp mp" "signed_value sr' mr \<le> signed_value sp mp" "signed_value sp mp \<le> signed_value (st \<noteq> sr) 0"
      by blast
    then have p: "?P = Finite sp mp" "?rv \<le> signed_value sp mp" "signed_value sp mp \<le> 0"
      using R(2) by simp_all
    show "float_le (float_add (Finite sr mr) (Finite s0 m0)) (float_add ?P (Finite s0 m0))"
      unfolding p(1) by (simp add: f32_round_mono p(2))
    have "float_le (f32_round (sp \<and> s0) (signed_value sp mp + ?v0)) (f32_round (s0 \<and> s0) ?v0)"
      by (rule f32_round_mono) (use p(3) in simp)
    then show "float_le (float_add ?P (Finite s0 m0)) (Finite s0 m0)"
      unfolding p(1) M(1) using float_le_value_right [OF M(2)] by simp
  qed
qed

section \<open>Tuples\<close>

lemma set_float_holds: "holds_float t i \<Longrightarrow> set_float t i x = Inr (written_once t i x)"
  by (cases "slot_value (t ! i)") (simp_all add: holds_float_def set_float_def written_once_def)

lemma get_float_slots:
  "get_float [float_slot a, float_slot b] 0 = Inr a"
  "get_float [float_slot a, float_slot b] 1 = Inr b"
  by (simp_all add: get_float_def float_slot_def)

lemma get_float_slot_Suc: "get_float [float_slot a, float_slot b] (Suc 0) = Inr b"
  by (simp add: get_float_def float_slot_def)

lemma holds_float_slot: "holds_float [float_slot c] 0"
  by (simp add: holds_float_def float_slot_def)

lemma written_once_slot:
  "written_once [float_slot c] 0 x = [\<lparr>slot_value = FloatVal x, slot_writes = 1\<rparr>]"
  by (simp add: written_once_def float_slot_def)

section \<open>The init blocks\<close>

lemmas init_defs =
  add_floats_init_def multiply_floats_init_def min_floats_init_def max_floats_init_def
  map_range_init_def get_simple_math_function_def Signature_construct_def
  SharedFunction_New_def InputParameter_def OutputParameter_def bind_err_def

lemma init_block_succeeds: "\<exists>fn. init_block b = Inr fn"
  by (cases b) (simp_all add: init_defs)

lemma multiply_floats_init_fn: "multiply_floats_init = Inr multiply_floats_fn"
  by (simp add: init_defs multiply_floats_fn_def simple_math_signature_def)

section \<open>The arithmetic bodies\<close>

lemma float_lt_NaN: "a = NaN \<or> b = NaN \<Longrightarrow> \<not> float_lt a b"
  by (cases a; cases b) auto

text \<open>
  Claim C4, as stated, fails for the minimum and the maximum when an input is a NaN, where
  \<open>a < b\<close> is false whatever the other input is: min(1, NaN) is NaN while min(NaN, 1) is 1,
  and max(NaN, 1) is NaN, so the value written is not below or equal to (above or equal to)
  both inputs.
\<close>

theorem arithmetic_bodies_counterexample:
  "call MinFloats [float_slot (float_lit 1), float_slot NaN] [float_slot (float_lit 0)]
        (ExecutionContext_init \<lparr>objects = []\<rparr>)
       = Inr ([\<lparr>slot_value = FloatVal NaN, slot_writes = 1\<rparr>],
              ExecutionContext_init \<lparr>objects = []\<rparr>)
   \<and> \<not> float_le NaN (float_lit 1)
   \<and> call MinFloats [float_slot NaN, float_slot (float_lit 1)] [float_slot (float_lit 0)]
        (ExecutionContext_init \<lparr>objects = []\<rparr>)
       = Inr ([\<lparr>slot_value = FloatVal (float_lit 1), slot_writes = 1\<rparr>],
              ExecutionContext_init \<lparr>objects = []\<rparr>)
   \<and> \<not> float_le (float_lit 1) NaN
   \<and> call MaxFloats [float_slot NaN, float_slot (float_lit 1)] [float_slot (float_lit 0)]
        (ExecutionContext_init \<lparr>objects = []\<rparr>)
       = Inr ([\<lparr>slot_value = FloatVal NaN, slot_writes = 1\<rparr>],
              ExecutionContext_init \<lparr>objects = []\<rparr>)"
  by (simp add: MinFloats_call_def MaxFloats_call_def get_float_slots get_float_slot_Suc
      set_float_holds holds_float_slot written_once_slot bind_err_def float_le_def float_lit_def)

text \<open>
  Claim C4, amended. On every input tuple whose first two slots hold floats \<open>a\<close> and \<open>b\<close>,
  and every output tuple whose slot 0 is a float slot, the bodies \<^verbatim>\<open>AddFloats\<close>,
  \<^verbatim>\<open>MultiplyFloats\<close>, \<^verbatim>\<open>MinFloats\<close> and \<^verbatim>\<open>MaxFloats\<close> return the output tuple with slot 0 set
  exactly once (its counter one higher, every other slot untouched) to \<open>a + b\<close>, \<open>a * b\<close>,
  \<open>a\<close> if \<open>a < b\<close> else \<open>b\<close>, and \<open>b\<close> if \<open>a < b\<close> else \<open>a\<close>, and the context as it was. When
  neither input is a NaN the third value is the lesser (below or equal to both inputs) and
  the fourth the greater; when an input is a NaN the third is \<open>b\<close> and the fourth is \<open>a\<close>.
  The Functions that the \<^verbatim>\<open>multiply_floats\<close>, \<^verbatim>\<open>min_floats\<close> and \<^verbatim>\<open>max_floats\<close> blocks build
  evaluate to these values under the interpreted strategy (\<^verbatim>\<open>AddFloats\<close> is attached to no
  Function).
\<close>

theorem arithmetic_bodies:
  assumes "get_float fn_in 0 = Inr a" and "get_float fn_in 1 = Inr b"
    and "holds_float fn_out 0"
  shows "call AddFloats fn_in fn_out ctx = Inr (written_once fn_out 0 (float_add a b), ctx)
    \<and> call MultiplyFloats fn_in fn_out ctx = Inr (written_once fn_out 0 (float_mul a b), ctx)
    \<and> call MinFloats fn_in fn_out ctx
        = Inr (written_once fn_out 0 (if float_lt a b then a else b), ctx)
    \<and> call MaxFloats fn_in fn_out ctx
        = Inr (written_once fn_out 0 (if float_lt a b then b else a), ctx)
    \<and> (a \<noteq> NaN \<and> b \<noteq> NaN \<longrightarrow>
         float_le (if float_lt a b then a else b) a \<and> float_le (if float_lt a b then a else b) b
       \<and> float_le a (if float_lt a b then b else a) \<and> float_le b (if float_lt a b then b else a))
    \<and> (a = NaN \<or> b = NaN \<longrightarrow>
         (if float_lt a b then a else b) = b \<and> (if float_lt a b then b else a) = a)
    \<and> (\<exists>fn. multiply_floats_init = Inr fn
         \<and> eval_interpreted fn fn_in fn_out ctx = Inr (written_once fn_out 0 (float_mul a b), ctx))
    \<and> (\<exists>fn. min_floats_init = Inr fn
         \<and> eval_interpreted fn fn_in fn_out ctx
             = Inr (written_once fn_out 0 (if float_lt a b then a else b), ctx))
    \<and> (\<exists>fn. max_floats_init = Inr fn
         \<and> eval_interpreted fn fn_in fn_out ctx
             = Inr (written_once fn_out 0 (if float_lt a b then b else a), ctx))"
proof -
  have bodies: "call AddFloats fn_in fn_out ctx = Inr (written_once fn_out 0 (float_add a b), ctx)
    \<and> call MultiplyFloats fn_in fn_out ctx = Inr (written_once fn_out 0 (float_mul a b), ctx)
    \<and> call MinFloats fn_in fn_out ctx
        = Inr (written_once fn_out 0 (if float_lt a b then a else b), ctx)
    \<and> call MaxFloats fn_in fn_out ctx
        = Inr (written_once fn_out 0 (if float_lt a b then b else a), ctx)"
    using assms
    by (simp add: AddFloats_call_def MultiplyFloats_call_def MinFloats_call_def MaxFloats_call_def
        bind_err_def set_float_holds)
  have nan: "a = NaN \<or> b = NaN \<longrightarrow>
      (if float_lt a b then a else b) = b \<and> (if float_lt a b then b else a) = a"
    using float_lt_NaN [of a b] by simp
  have fns: "(\<exists>fn. multiply_floats_init = Inr fn
         \<and> eval_interpreted fn fn_in fn_out ctx = call MultiplyFloats fn_in fn_out ctx)
    \<and> (\<exists>fn. min_floats_init = Inr fn
         \<and> eval_interpreted fn fn_in fn_out ctx = call MinFloats fn_in fn_out ctx)
    \<and> (\<exists>fn. max_floats_init = Inr fn
         \<and> eval_interpreted fn fn_in fn_out ctx = call MaxFloats fn_in fn_out ctx)"
    by (simp add: init_defs eval_interpreted_def)
  from bodies nan fns float_lt_lesser [of a b] float_lt_greater [of a b]
  show ?thesis by simp
qed

text \<open>The instances of the spec: add(2,3) = 5, multiply(2,3) = 6, min(2,3) = 2, max(2,3) = 3.\<close>

theorem arithmetic_bodies_witness:
  "get_float [float_slot (float_lit 2), float_slot (float_lit 3)] 0 = Inr (float_lit 2)
   \<and> get_float [float_slot (float_lit 2), float_slot (float_lit 3)] 1 = Inr (float_lit 3)
   \<and> holds_float [float_slot (float_lit 0)] 0
   \<and> float_lit 2 \<noteq> NaN \<and> float_lit 3 \<noteq> NaN
   \<and> call AddFloats [float_slot (float_lit 2), float_slot (float_lit 3)] [float_slot (float_lit 0)]
        (ExecutionContext_init \<lparr>objects = []\<rparr>)
       = Inr ([\<lparr>slot_value = FloatVal (float_lit 5), slot_writes = 1\<rparr>],
              ExecutionContext_init \<lparr>objects = []\<rparr>)
   \<and> call MultiplyFloats [float_slot (float_lit 2), float_slot (float_lit 3)] [float_slot (float_lit 0)]
        (ExecutionContext_init \<lparr>objects = []\<rparr>)
       = Inr ([\<lparr>slot_value = FloatVal (float_lit 6), slot_writes = 1\<rparr>],
              ExecutionContext_init \<lparr>objects = []\<rparr>)
   \<and> call MinFloats [float_slot (float_lit 2), float_slot (float_lit 3)] [float_slot (float_lit 0)]
        (ExecutionContext_init \<lparr>objects = []\<rparr>)
       = Inr ([\<lparr>slot_value = FloatVal (float_lit 2), slot_writes = 1\<rparr>],
              ExecutionContext_init \<lparr>objects = []\<rparr>)
   \<and> call MaxFloats [float_slot (float_lit 2), float_slot (float_lit 3)] [float_slot (float_lit 0)]
        (ExecutionContext_init \<lparr>objects = []\<rparr>)
       = Inr ([\<lparr>slot_value = FloatVal (float_lit 3), slot_writes = 1\<rparr>],
              ExecutionContext_init \<lparr>objects = []\<rparr>)"
proof -
  have n: "float_lit 2 \<noteq> NaN" "float_lit 3 \<noteq> NaN"
    by (simp_all add: float_lit_def)
  show ?thesis
    using arithmetic_bodies [OF get_float_slots holds_float_slot,
        of "float_lit 2" "float_lit 3" "float_lit 0" "ExecutionContext_init \<lparr>objects = []\<rparr>"]
    by (simp only: written_once_slot add_2_3 mul_2_3 lt_2_3 if_True get_float_slots
        holds_float_slot n simp_thms)
qed

section \<open>The two bodies of Add Floats\<close>

lemma GenAddFloats_run: "run_build_ir GenAddFloats [a, b] = Inr [float_add a b]"
  by (simp add: run_build_ir_def GenAddFloats_build_ir_def values_at_def CreateFAdd_def
      bind_err_def llvm_value_of_def upt_rec)

text \<open>
  Claim C5, as stated, fails for the Add Floats function: the \<^verbatim>\<open>add_floats\<close> block attaches
  only \<^verbatim>\<open>GenAddFloats\<close> (the line attaching \<^verbatim>\<open>AddFloats\<close> is commented out), so on the inputs
  2 and 3 the codegen strategy gives 5 and the interpreted strategy gives no value but
  UnresolvedBody.
\<close>

theorem add_bodies_agree_counterexample:
  "\<exists>fn. init_block Add_Floats = Inr fn
     \<and> eval_codegen fn [float_lit 2, float_lit 3] = Inr [float_lit 5]
     \<and> eval_interpreted fn [float_slot (float_lit 2), float_slot (float_lit 3)]
          [float_slot (float_lit 0)] (ExecutionContext_init \<lparr>objects = []\<rparr>)
        = Inl UnresolvedBody"
  by (simp add: init_defs eval_interpreted_def eval_codegen_def GenAddFloats_run add_2_3)

text \<open>
  Claim C5, amended. No Function that an init block of the library builds carries both an
  interpreted and a codegen body. The Function the \<^verbatim>\<open>add_floats\<close> block builds carries only
  \<^verbatim>\<open>GenAddFloats\<close>: for all floats \<open>a\<close> and \<open>b\<close> it evaluates to the one value \<open>a + b\<close> under
  the codegen strategy and to UnresolvedBody under the interpreted strategy. The class
  \<^verbatim>\<open>AddFloats\<close>, attached to no Function, writes to its output slot exactly that \<open>a + b\<close>.
\<close>

theorem add_bodies_agree:
  "(\<forall>b fn. init_block b = Inr fn \<longrightarrow> fn_tuple_call fn = None \<or> fn_llvm_build_ir fn = None)
   \<and> (\<exists>fn. init_block Add_Floats = Inr fn
        \<and> fn_tuple_call fn = None \<and> fn_llvm_build_ir fn = Some GenAddFloats
        \<and> eval_codegen fn [a, b] = Inr [float_add a b]
        \<and> eval_interpreted fn [float_slot a, float_slot b] [float_slot c] ctx
            = Inl UnresolvedBody)
   \<and> call AddFloats [float_slot a, float_slot b] [float_slot c] ctx
       = Inr ([\<lparr>slot_value = FloatVal (float_add a b), slot_writes = 1\<rparr>], ctx)"
proof (intro conjI allI impI)
  fix b fn
  assume "init_block b = Inr fn"
  then show "fn_tuple_call fn = None \<or> fn_llvm_build_ir fn = None"
    by (cases b) (auto simp: init_defs)
next
  show "\<exists>fn. init_block Add_Floats = Inr fn
        \<and> fn_tuple_call fn = None \<and> fn_llvm_build_ir fn = Some GenAddFloats
        \<and> eval_codegen fn [a, b] = Inr [float_add a b]
        \<and> eval_interpreted fn [float_slot a, float_slot b] [float_slot c] ctx
            = Inl UnresolvedBody"
    by (simp add: init_defs eval_interpreted_def eval_codegen_def GenAddFloats_run)
next
  show "call AddFloats [float_slot a, float_slot b] [float_slot c] ctx
       = Inr ([\<lparr>slot_value = FloatVal (float_add a b), slot_writes = 1\<rparr>], ctx)"
    by (simp add: AddFloats_call_def get_float_def set_float_def float_slot_def bind_err_def)
qed

theorem add_bodies_agree_witness:
  "\<exists>fn. init_block Add_Floats = Inr fn
     \<and> (fn_tuple_call fn = None \<or> fn_llvm_build_ir fn = None)
     \<and> fn_llvm_build_ir fn = Some GenAddFloats
     \<and> eval_codegen fn [float_lit 2, float_lit 3] = Inr [float_lit 5]
     \<and> call AddFloats [float_slot (float_lit 2), float_slot (float_lit 3)]
          [float_slot (float_lit 0)] (ExecutionContext_init \<lparr>objects = []\<rparr>)
        = Inr ([\<lparr>slot_value = FloatVal (float_lit 5), slot_writes = 1\<rparr>],
               ExecutionContext_init \<lparr>objects = []\<rparr>)"
proof -
  note t = add_bodies_agree [of "float_lit 2" "float_lit 3" "float_lit 0"
      "ExecutionContext_init \<lparr>objects = []\<rparr>"]
  from t obtain fn where
    f: "init_block Add_Floats = Inr fn" "fn_llvm_build_ir fn = Some GenAddFloats"
       "eval_codegen fn [float_lit 2, float_lit 3] = Inr [float_add (float_lit 2) (float_lit 3)]"
    by blast
  from conjunct1 [OF t] have "init_block Add_Floats = Inr fn \<longrightarrow>
      fn_tuple_call fn = None \<or> fn_llvm_build_ir fn = None"
    by (elim allE)
  with f(1) have d: "fn_tuple_call fn = None \<or> fn_llvm_build_ir fn = None"
    by (rule rev_mp)
  from t have c: "call AddFloats [float_slot (float_lit 2), float_slot (float_lit 3)]
          [float_slot (float_lit 0)] (ExecutionContext_init \<lparr>objects = []\<rparr>)
        = Inr ([\<lparr>slot_value = FloatVal (float_add (float_lit 2) (float_lit 3)), slot_writes = 1\<rparr>],
               ExecutionContext_init \<lparr>objects = []\<rparr>)"
    by blast
  from f d c show ?thesis
    unfolding add_2_3 by blast
qed

section \<open>Which bodies the built-ins carry\<close>

text \<open>
  Claim C10. The \<^verbatim>\<open>add_floats\<close> block builds a Function with the codegen body
  \<^verbatim>\<open>GenAddFloats\<close> and no interpreted body; the blocks of \<^verbatim>\<open>multiply_floats\<close>, \<^verbatim>\<open>min_floats\<close>,
  \<^verbatim>\<open>max_floats\<close> and \<^verbatim>\<open>map_range\<close> build Functions with an interpreted body and no codegen
  body. So evaluating Add Floats under the interpreted strategy fails with UnresolvedBody
  on every input, and so does evaluating any of the other four under the codegen strategy.
\<close>

theorem builtin_bodies:
  "(\<exists>fn. add_floats_init = Inr fn
       \<and> fn_tuple_call fn = None \<and> fn_llvm_build_ir fn = Some GenAddFloats
       \<and> (\<forall>fn_in fn_out ctx. eval_interpreted fn fn_in fn_out ctx = Inl UnresolvedBody))
   \<and> (\<exists>fn. multiply_floats_init = Inr fn
       \<and> fn_tuple_call fn = Some MultiplyFloats \<and> fn_llvm_build_ir fn = None
       \<and> (\<forall>args. eval_codegen fn args = Inl UnresolvedBody))
   \<and> (\<exists>fn. min_floats_init = Inr fn
       \<and> fn_tuple_call fn = Some MinFloats \<and> fn_llvm_build_ir fn = None
       \<and> (\<forall>args. eval_codegen fn args = Inl UnresolvedBody))
   \<and> (\<exists>fn. max_floats_init = Inr fn
       \<and> fn_tuple_call fn = Some MaxFloats \<and> fn_llvm_build_ir fn = None
       \<and> (\<forall>args. eval_codegen fn args = Inl UnresolvedBody))
   \<and> (\<exists>fn. map_range_init = Inr fn
       \<and> fn_tuple_call fn = Some MapRange \<and> fn_llvm_build_ir fn = None
       \<and> (\<forall>args. eval_codegen fn args = Inl UnresolvedBody))"
  by (simp add: init_defs eval_interpreted_def eval_codegen_def)

section \<open>Signature construction\<close>

text \<open>
  Claim C9. Signature construction fails with DuplicateParameter exactly when two inputs
  share a name or two outputs share a name, and otherwise returns the Signature with the
  parameters as given; a name shared between an input and an output is no conflict. The
  \<^verbatim>\<open>map_range\<close> block, whose first input and whose output are both named Value, builds its
  Function.
\<close>

theorem signature_uniqueness:
  "(Signature_construct inputs outputs = Inl DuplicateParameter
      \<longleftrightarrow> \<not> distinct (map param_name inputs) \<or> \<not> distinct (map param_name outputs))
   \<and> (Signature_construct inputs outputs = Inr \<lparr>sig_inputs = inputs, sig_outputs = outputs\<rparr>
      \<longleftrightarrow> distinct (map param_name inputs) \<and> distinct (map param_name outputs))
   \<and> (\<exists>fn. map_range_init = Inr fn
        \<and> map param_name (sig_inputs (fn_signature fn))
            = [''Value'', ''From Min'', ''From Max'', ''To Min'', ''To Max'']
        \<and> map param_name (sig_outputs (fn_signature fn)) = [''Value''])
   \<and> Signature_construct
        [InputParameter ''Value'' get_float_type, InputParameter ''Value'' get_float_type]
        [OutputParameter ''Result'' get_float_type] = Inl DuplicateParameter
   \<and> Signature_construct [InputParameter ''A'' get_float_type]
        [OutputParameter ''Value'' get_float_type, OutputParameter ''Value'' get_float_type]
       = Inl DuplicateParameter"
  by (simp add: init_defs)

theorem signature_uniqueness_witness:
  "distinct (map param_name [InputParameter ''Value'' get_float_type,
       InputParameter ''From Min'' get_float_type])
   \<and> distinct (map param_name [OutputParameter ''Value'' get_float_type])
   \<and> Signature_construct
        [InputParameter ''Value'' get_float_type, InputParameter ''From Min'' get_float_type]
        [OutputParameter ''Value'' get_float_type]
      = Inr \<lparr>sig_inputs = [InputParameter ''Value'' get_float_type,
                            InputParameter ''From Min'' get_float_type],
              sig_outputs = [OutputParameter ''Value'' get_float_type]\<rparr>"
proof -
  have d: "distinct (map param_name [InputParameter ''Value'' get_float_type,
       InputParameter ''From Min'' get_float_type])
     \<and> distinct (map param_name [OutputParameter ''Value'' get_float_type])"
    by (simp add: InputParameter_def OutputParameter_def)
  with signature_uniqueness [of "[InputParameter ''Value'' get_float_type,
       InputParameter ''From Min'' get_float_type]" "[OutputParameter ''Value'' get_float_type]"]
  show ?thesis by blast
qed


section \<open>Lazy construction of the built-ins\<close>

lemma builtin_UNIV: "(UNIV :: builtin set) = {Add_Floats, Multiply_Floats, Min_Floats, Max_Floats, Map_Range}"
  using builtin.exhaust by auto

lemma finite_builtins: "finite (A :: builtin set)"
proof (rule finite_subset)
  show "A \<subseteq> UNIV" by simp
  show "finite (UNIV :: builtin set)" by (simp add: builtin_UNIV)
qed

lemma store_ok_empty: "store_ok empty_store"
  by (simp add: store_ok_def empty_store_def)

lemma lazy_init_cached:
  "cell st b = Some r \<Longrightarrow> lazy_init b st = Inr (r, st)"
  by (simp add: lazy_init_def)

lemma lazy_init_step:
  assumes "store_ok st"
  shows "\<exists>r st'. lazy_init b st = Inr (r, st') \<and> store_ok st' \<and> cell st' b = Some r
           \<and> dom (cell st') = insert b (dom (cell st))
           \<and> (\<forall>c\<in>dom (cell st). cell st' c = cell st c)
           \<and> length (constructed st') = (if b \<in> dom (cell st) then 0 else 1) + length (constructed st)"
proof (cases "cell st b")
  case (Some r)
  then have "b \<in> dom (cell st)" by auto
  moreover from this have "insert b (dom (cell st)) = dom (cell st)" by auto
  ultimately show ?thesis using Some assms by (simp add: lazy_init_def)
next
  case None
  obtain fn where fn: "init_block b = Inr fn" using init_block_succeeds by blast
  let ?n = "length (constructed st)"
  let ?st = "st\<lparr>constructed := constructed st @ [fn], cell := (cell st)(b \<mapsto> ?n)\<rparr>"
  have li: "lazy_init b st = Inr (?n, ?st)"
    using None fn by (simp add: lazy_init_def bind_err_def)
  have nb: "b \<notin> dom (cell st)" using None by auto
  have card: "card (insert b (dom (cell st))) = Suc (card (dom (cell st)))"
    using nb by (simp add: finite_builtins)
  have ok: "store_ok ?st"
    using assms fn nb card unfolding store_ok_def
    by (auto simp: nth_append)
  show ?thesis
    using li ok nb None by auto
qed

lemma access_all_ok:
  "store_ok st0 \<Longrightarrow>
   \<exists>rs st. access_all bs st0 = Inr (rs, st) \<and> store_ok st
      \<and> rs = map (\<lambda>b. the (cell st b)) bs
      \<and> dom (cell st) = dom (cell st0) \<union> set bs
      \<and> (\<forall>c\<in>dom (cell st0). cell st c = cell st0 c)"
proof (induction bs arbitrary: st0)
  case Nil
  then show ?case by simp
next
  case (Cons b bs)
  from lazy_init_step [OF Cons.prems, of b] obtain r st1 where
    s1: "lazy_init b st0 = Inr (r, st1)" "store_ok st1" "cell st1 b = Some r"
        "dom (cell st1) = insert b (dom (cell st0))"
        "\<forall>c\<in>dom (cell st0). cell st1 c = cell st0 c"
    by blast
  from Cons.IH [OF s1(2)] obtain rs st where
    s2: "access_all bs st1 = Inr (rs, st)" "store_ok st"
        "rs = map (\<lambda>b. the (cell st b)) bs"
        "dom (cell st) = dom (cell st1) \<union> set bs"
        "\<forall>c\<in>dom (cell st1). cell st c = cell st1 c"
    by blast
  have rb: "cell st b = Some r" using s1(3,4) s2(5) by auto
  have "access_all (b # bs) st0 = Inr (r # rs, st)"
    using s1(1) s2(1) by (simp add: bind_err_def)
  moreover have "r # rs = map (\<lambda>b. the (cell st b)) (b # bs)"
    using rb s2(3) by simp
  moreover have "dom (cell st) = dom (cell st0) \<union> set (b # bs)"
    using s1(4) s2(4) by auto
  moreover have "\<forall>c\<in>dom (cell st0). cell st c = cell st0 c"
    using s1(4,5) s2(5) by auto
  ultimately show ?case using s2(2) by (intro exI conjI)
qed

text \<open>
  Claim C7. Starting from the store in which nothing is constructed yet, any sequence of
  accessor calls succeeds; it constructs exactly one object for each accessor that is
  called at least once; two calls of the same accessor return the same reference; the
  referenced object is the Function the accessor's block builds (name, Signature and
  bodies); and one more call of any of these accessors returns the same reference and
  leaves the store as it is. From any store, an accessor called on the store its own call
  returned gives the same reference and the same store.
\<close>

theorem builtins_constructed_once:
  "(\<exists>rs st. access_all bs empty_store = Inr (rs, st)
      \<and> length rs = length bs
      \<and> length (constructed st) = card (set bs)
      \<and> (\<forall>i<length bs. \<forall>j<length bs. bs ! i = bs ! j \<longrightarrow> rs ! i = rs ! j)
      \<and> (\<forall>i<length bs. rs ! i < length (constructed st)
            \<and> init_block (bs ! i) = Inr (constructed st ! (rs ! i))
            \<and> lazy_init (bs ! i) st = Inr (rs ! i, st)))
   \<and> (lazy_init b s = Inr (r, s') \<longrightarrow> lazy_init b s' = Inr (r, s'))"
proof
  from access_all_ok [OF store_ok_empty, of bs] obtain rs st where
    a: "access_all bs empty_store = Inr (rs, st)" "store_ok st"
       "rs = map (\<lambda>b. the (cell st b)) bs"
       "dom (cell st) = dom (cell empty_store) \<union> set bs"
    by blast
  have d: "dom (cell st) = set bs" using a(4) by (simp add: empty_store_def)
  have c: "cell st (bs ! i) = Some (rs ! i)" if "i < length bs" for i
  proof -
    have "bs ! i \<in> dom (cell st)" using that d by simp
    then show ?thesis using a(3) that by auto
  qed
  have "length (constructed st) = card (set bs)"
    using a(2) d by (simp add: store_ok_def)
  moreover have "\<forall>i<length bs. \<forall>j<length bs. bs ! i = bs ! j \<longrightarrow> rs ! i = rs ! j"
    using a(3) by simp
  moreover have "\<forall>i<length bs. rs ! i < length (constructed st)
            \<and> init_block (bs ! i) = Inr (constructed st ! (rs ! i))
            \<and> lazy_init (bs ! i) st = Inr (rs ! i, st)"
    using c a(2) lazy_init_cached unfolding store_ok_def by blast
  ultimately show "\<exists>rs st. access_all bs empty_store = Inr (rs, st)
      \<and> length rs = length bs
      \<and> length (constructed st) = card (set bs)
      \<and> (\<forall>i<length bs. \<forall>j<length bs. bs ! i = bs ! j \<longrightarrow> rs ! i = rs ! j)
      \<and> (\<forall>i<length bs. rs ! i < length (constructed st)
            \<and> init_block (bs ! i) = Inr (constructed st ! (rs ! i))
            \<and> lazy_init (bs ! i) st = Inr (rs ! i, st))"
    using a(1,3) by auto
next
  show "lazy_init b s = Inr (r, s') \<longrightarrow> lazy_init b s' = Inr (r, s')"
    by (cases "init_block b") (auto simp: lazy_init_def bind_err_def split: option.splits)
qed

theorem builtins_constructed_once_witness:
  "\<exists>rs st. access_all [Add_Floats, Map_Range, Add_Floats] empty_store = Inr (rs, st)
      \<and> length (constructed st) = 2
      \<and> rs ! 0 = rs ! 2
      \<and> init_block Add_Floats = Inr (constructed st ! (rs ! 2))
      \<and> lazy_init Add_Floats st = Inr (rs ! 2, st)"
proof -
  let ?bs = "[Add_Floats, Map_Range, Add_Floats]"
  from builtins_constructed_once [of ?bs] obtain rs st where
    a: "access_all ?bs empty_store = Inr (rs, st)"
       "length (constructed st) = card (set ?bs)"
       "\<forall>i<length ?bs. \<forall>j<length ?bs. ?bs ! i = ?bs ! j \<longrightarrow> rs ! i = rs ! j"
       "\<forall>i<length ?bs. rs ! i < length (constructed st)
            \<and> init_block (?bs ! i) = Inr (constructed st ! (rs ! i))
            \<and> lazy_init (?bs ! i) st = Inr (rs ! i, st)"
    by blast
  have "set ?bs = {Add_Floats, Map_Range}" by auto
  then have c: "card (set ?bs) = 2" by simp
  from a(3) [rule_format, of 0 2] have e: "rs ! 0 = rs ! 2" by simp
  from a(4) [rule_format, of 2] have f: "init_block Add_Floats = Inr (constructed st ! (rs ! 2))
      \<and> lazy_init Add_Floats st = Inr (rs ! 2, st)" by simp
  from a(1,2) c e f show ?thesis by auto
qed

section \<open>Purity of the call bodies\<close>

lemma same_inputs_get:
  "same_inputs n t t' \<Longrightarrow> i < n \<Longrightarrow> get_float t i = get_float t' i"
  by (simp add: same_inputs_def get_float_def)

lemma call_shape:
  assumes "holds_float fn_out 0" and "holds_float fn_out' 0"
    and "\<forall>i<input_count body. get_float fn_in i = get_float fn_in' i"
  shows "(\<exists>e. call body fn_in fn_out ctx = Inl e \<and> call body fn_in' fn_out' ctx' = Inl e)
       \<or> (\<exists>x. call body fn_in fn_out ctx = Inr (written_once fn_out 0 x, ctx)
             \<and> call body fn_in' fn_out' ctx' = Inr (written_once fn_out' 0 x, ctx'))"
proof (cases body)
  case AddFloats
  with assms(3) have g: "get_float fn_in 0 = get_float fn_in' 0" "get_float fn_in 1 = get_float fn_in' 1"
    by (simp_all add: input_count_def)
  show ?thesis
    using assms(1,2) unfolding AddFloats call.simps AddFloats_call_def g
    by (cases "get_float fn_in' 0"; cases "get_float fn_in' 1") (auto simp add: bind_err_def set_float_holds)
next
  case MultiplyFloats
  with assms(3) have g: "get_float fn_in 0 = get_float fn_in' 0" "get_float fn_in 1 = get_float fn_in' 1"
    by (simp_all add: input_count_def)
  show ?thesis
    using assms(1,2) unfolding MultiplyFloats call.simps MultiplyFloats_call_def g
    by (cases "get_float fn_in' 0"; cases "get_float fn_in' 1") (auto simp add: bind_err_def set_float_holds)
next
  case MinFloats
  with assms(3) have g: "get_float fn_in 0 = get_float fn_in' 0" "get_float fn_in 1 = get_float fn_in' 1"
    by (simp_all add: input_count_def)
  show ?thesis
    using assms(1,2) unfolding MinFloats call.simps MinFloats_call_def g
    by (cases "get_float fn_in' 0"; cases "get_float fn_in' 1") (auto simp add: bind_err_def set_float_holds)
next
  case MaxFloats
  with assms(3) have g: "get_float fn_in 0 = get_float fn_in' 0" "get_float fn_in 1 = get_float fn_in' 1"
    by (simp_all add: input_count_def)
  show ?thesis
    using assms(1,2) unfolding MaxFloats call.simps MaxFloats_call_def g
    by (cases "get_float fn_in' 0"; cases "get_float fn_in' 1") (auto simp add: bind_err_def set_float_holds)
next
  case MapRange
  with assms(3) have g: "get_float fn_in 0 = get_float fn_in' 0" "get_float fn_in 1 = get_float fn_in' 1"
     "get_float fn_in 2 = get_float fn_in' 2" "get_float fn_in 3 = get_float fn_in' 3"
     "get_float fn_in 4 = get_float fn_in' 4"
    by (simp_all add: input_count_def)
  show ?thesis
    using assms(1,2) unfolding MapRange call.simps MapRange_call_def g
    by (cases "get_float fn_in' 0"; cases "get_float fn_in' 1"; cases "get_float fn_in' 2";
        cases "get_float fn_in' 3"; cases "get_float fn_in' 4")
       (auto simp add: bind_err_def set_float_holds)
qed

text \<open>
  Claim C8. Take any body, two input tuples that hold equal values in the body's declared
  input slots, two output tuples whose slot 0 is a float slot, and any two execution
  contexts. Then either both calls abort with the same error, or both succeed and set
  slot 0 of their output tuple, once, to the same value; each call returns its context
  as it received it. So the value written depends on the declared input values only: not
  on the context, not on other slots, not on an earlier call.
\<close>

theorem bodies_pure:
  assumes "same_inputs (input_count body) fn_in fn_in'"
    and "holds_float fn_out 0" and "holds_float fn_out' 0"
  shows "(\<exists>e. call body fn_in fn_out ctx = Inl e \<and> call body fn_in' fn_out' ctx' = Inl e)
       \<or> (\<exists>x. call body fn_in fn_out ctx = Inr (written_once fn_out 0 x, ctx)
             \<and> call body fn_in' fn_out' ctx' = Inr (written_once fn_out' 0 x, ctx'))"
  using call_shape [OF assms(2,3)] same_inputs_get [OF assms(1)] by blast

theorem bodies_pure_witness:
  "same_inputs (input_count AddFloats)
      [float_slot (float_lit 2), float_slot (float_lit 3)]
      [\<lparr>slot_value = FloatVal (float_lit 2), slot_writes = 7\<rparr>, float_slot (float_lit 3),
       float_slot (float_lit 9)]
   \<and> holds_float [float_slot (float_lit 0)] 0 \<and> holds_float [float_slot (float_lit 1)] 0
   \<and> ((\<exists>e. call AddFloats [float_slot (float_lit 2), float_slot (float_lit 3)]
              [float_slot (float_lit 0)] (ExecutionContext_init \<lparr>objects = []\<rparr>) = Inl e
          \<and> call AddFloats
              [\<lparr>slot_value = FloatVal (float_lit 2), slot_writes = 7\<rparr>, float_slot (float_lit 3),
               float_slot (float_lit 9)]
              [float_slot (float_lit 1)] (ExecutionContext_init \<lparr>objects = [1, 2]\<rparr>) = Inl e)
      \<or> (\<exists>x. call AddFloats [float_slot (float_lit 2), float_slot (float_lit 3)]
              [float_slot (float_lit 0)] (ExecutionContext_init \<lparr>objects = []\<rparr>)
             = Inr (written_once [float_slot (float_lit 0)] 0 x, ExecutionContext_init \<lparr>objects = []\<rparr>)
          \<and> call AddFloats
              [\<lparr>slot_value = FloatVal (float_lit 2), slot_writes = 7\<rparr>, float_slot (float_lit 3),
               float_slot (float_lit 9)]
              [float_slot (float_lit 1)] (ExecutionContext_init \<lparr>objects = [1, 2]\<rparr>)
             = Inr (written_once [float_slot (float_lit 1)] 0 x,
                    ExecutionContext_init \<lparr>objects = [1, 2]\<rparr>)))"
proof -
  have s: "same_inputs (input_count AddFloats)
      [float_slot (float_lit 2), float_slot (float_lit 3)]
      [\<lparr>slot_value = FloatVal (float_lit 2), slot_writes = 7\<rparr>, float_slot (float_lit 3),
       float_slot (float_lit 9)]"
    by (simp add: same_inputs_def input_count_def float_slot_def numeral_2_eq_2 less_Suc_eq)
  from bodies_pure [OF s holds_float_slot holds_float_slot] s holds_float_slot
  show ?thesis by blast
qed

section \<open>Stack bounds\<close>

lemma stack_load_error: "stack_load st off = Inl e \<Longrightarrow> e = StackOverflow"
  by (simp add: stack_load_def split: if_splits)

lemma stack_load_outside: "\<not> in_stack off \<Longrightarrow> stack_load st off = Inl StackOverflow"
  by (auto simp: stack_load_def in_stack_def BVM_STACK_SIZE_def)

lemma stack_store_outside: "\<not> in_stack off \<Longrightarrow> stack_store st off x = Inl StackOverflow"
  by (auto simp: stack_store_def in_stack_def BVM_STACK_SIZE_def)

lemma collect_loads_error:
  "collect (map (stack_load st) offs) = Inl e \<Longrightarrow> e = StackOverflow"
proof (induction offs)
  case Nil
  then show ?case by simp
next
  case (Cons off offs)
  then show ?case
    by (cases "stack_load st off"; cases "collect (map (stack_load st) offs)")
       (auto simp: bind_err_def dest: stack_load_error)
qed

lemma collect_loads_outside:
  "\<exists>off\<in>set offs. \<not> in_stack off \<Longrightarrow> collect (map (stack_load st) offs) = Inl StackOverflow"
proof (induction offs)
  case Nil
  then show ?case by simp
next
  case (Cons off offs)
  show ?case
  proof (cases "stack_load st off")
    case (Inl e)
    then show ?thesis using stack_load_error [OF Inl] by (simp add: bind_err_def)
  next
    case (Inr x)
    then have "in_stack off" using stack_load_outside [of off st] by auto
    with Cons.prems have "\<exists>off\<in>set offs. \<not> in_stack off" by auto
    from Cons.IH [OF this] Inr show ?thesis by (simp add: bind_err_def)
  qed
qed

lemma eval_instruction_outside:
  assumes "\<exists>off\<in>set (ins @ outs). \<not> in_stack off"
  shows "eval_instruction globals st fn ins outs = Inl StackOverflow"
proof (cases "\<exists>off\<in>set ins. \<not> in_stack off")
  case True
  then show ?thesis
    by (simp add: eval_instruction_def collect_loads_outside bind_err_def)
next
  case False
  with assms have o: "\<exists>off\<in>set outs. \<not> in_stack off" by auto
  show ?thesis
  proof (cases "collect (map (stack_load st) ins)")
    case (Inl e)
    then show ?thesis
      using collect_loads_error [OF Inl] by (simp add: eval_instruction_def bind_err_def)
  next
    case (Inr xs)
    then show ?thesis
      using collect_loads_outside [OF o, of st] by (simp add: eval_instruction_def bind_err_def)
  qed
qed

lemma stack_store_length: "stack_store st off x = Inr st' \<Longrightarrow> length st' = length st"
  by (auto simp: stack_store_def split: if_splits)

lemma store_all_length: "store_all st ws = Inr st' \<Longrightarrow> length st' = length st"
proof (induction ws arbitrary: st)
  case Nil
  then show ?case by simp
next
  case (Cons w ws)
  obtain off x where w: "w = (off, x)" by (cases w)
  show ?case
  proof (cases "stack_store st off x")
    case (Inl e)
    with Cons.prems w show ?thesis by (simp add: bind_err_def)
  next
    case (Inr st1)
    with Cons.prems w have "store_all st1 ws = Inr st'" by (simp add: bind_err_def)
    from Cons.IH [OF this] stack_store_length [OF Inr] show ?thesis by simp
  qed
qed

lemma eval_instruction_length:
  "eval_instruction globals st fn ins outs = Inr st' \<Longrightarrow> length st' = length st"
  by (auto simp: eval_instruction_def bind_err_def split: sum.splits prod.splits
      dest: store_all_length)

lemma eval_instructions_inside:
  "eval_instructions globals is st = Inr st' \<Longrightarrow>
   length st' = length st \<and> (\<forall>i\<in>set (executed is). \<forall>off\<in>set (offsets i). in_stack off)"
proof (induction "is" arbitrary: st)
  case Nil
  then show ?case by simp
next
  case (Cons i "is")
  show ?case
  proof (cases i)
    case End
    with Cons.prems show ?thesis by (simp add: executed_def)
  next
    case (Call fn ins outs)
    show ?thesis
    proof (cases "eval_instruction globals st fn ins outs")
      case (Inl e)
      with Cons.prems Call show ?thesis by (simp add: bind_err_def)
    next
      case (Inr st1)
      with Cons.prems Call have r: "eval_instructions globals is st1 = Inr st'"
        by (simp add: bind_err_def)
      have "\<forall>off\<in>set (ins @ outs). in_stack off"
        using eval_instruction_outside [of ins outs globals st fn] Inr by auto
      with Cons.IH [OF r] eval_instruction_length [OF Inr] Call show ?thesis
        by (simp add: executed_def)
    qed
  qed
qed

lemma stack_load_inside:
  "in_stack off \<Longrightarrow> length st = BVM_STACK_SIZE \<Longrightarrow> stack_load st off = Inr (st ! nat off)"
  by (auto simp: stack_load_def in_stack_def BVM_STACK_SIZE_def)

lemma stack_store_inside:
  "in_stack off \<Longrightarrow> length st = BVM_STACK_SIZE \<Longrightarrow> stack_store st off x = Inr (st[nat off := x])"
  by (auto simp: stack_store_def in_stack_def BVM_STACK_SIZE_def)

lemma collect_loads_inside:
  "\<forall>off\<in>set offs. in_stack off \<Longrightarrow> length st = BVM_STACK_SIZE \<Longrightarrow>
   collect (map (stack_load st) offs) = Inr (map (\<lambda>off. st ! nat off) offs)"
  by (induction offs) (simp_all add: stack_load_inside bind_err_def)

lemma store_all_inside:
  "\<forall>w\<in>set ws. in_stack (fst w) \<Longrightarrow> length st = BVM_STACK_SIZE \<Longrightarrow>
   \<exists>st'. store_all st ws = Inr st'"
proof (induction ws arbitrary: st)
  case Nil
  then show ?case by simp
next
  case (Cons w ws)
  obtain off x where w: "w = (off, x)" by (cases w)
  with Cons.prems have "stack_store st off x = Inr (st[nat off := x])"
    by (simp add: stack_store_inside)
  moreover have "\<exists>st'. store_all (st[nat off := x]) ws = Inr st'"
    using Cons.prems by (intro Cons.IH) simp_all
  ultimately show ?case using w by (simp add: bind_err_def)
qed

lemma get_float_error: "get_float t i = Inl e \<Longrightarrow> e \<noteq> StackOverflow"
  by (auto simp: get_float_def split: if_splits val.splits)

lemma set_float_error: "set_float t i x = Inl e \<Longrightarrow> e \<noteq> StackOverflow"
  by (auto simp: set_float_def split: if_splits val.splits)

lemma call_error: "call body fn_in fn_out ctx = Inl e \<Longrightarrow> e \<noteq> StackOverflow"
  by (cases body)
    (auto simp: AddFloats_call_def MultiplyFloats_call_def MinFloats_call_def MaxFloats_call_def
      MapRange_call_def bind_err_def split: sum.splits dest: get_float_error set_float_error)

lemma eval_interpreted_error:
  "eval_interpreted fn fn_in fn_out ctx = Inl e \<Longrightarrow> e \<noteq> StackOverflow"
  by (auto simp: eval_interpreted_def split: option.splits dest: call_error)

lemma collect_gets_error:
  "collect (map (get_float out) is) = Inl e \<Longrightarrow> e \<noteq> StackOverflow"
proof (induction "is")
  case Nil
  then show ?case by simp
next
  case (Cons i "is")
  then show ?case
    by (cases "get_float out i"; cases "collect (map (get_float out) is)")
       (auto simp: bind_err_def dest: get_float_error)
qed

lemma collect_length: "collect rs = Inr xs \<Longrightarrow> length xs = length rs"
proof (induction rs arbitrary: xs)
  case Nil
  then show ?case by simp
next
  case (Cons r rs)
  then show ?case
    by (cases r; cases "collect rs") (auto simp: bind_err_def)
qed

lemma eval_instruction_inside:
  assumes "\<forall>off\<in>set (ins @ outs). in_stack off" and "length st = BVM_STACK_SIZE"
  shows "eval_instruction globals st fn ins outs \<noteq> Inl StackOverflow"
proof
  assume a: "eval_instruction globals st fn ins outs = Inl StackOverflow"
  let ?xs = "map (\<lambda>off. st ! nat off) ins" and ?ys = "map (\<lambda>off. st ! nat off) outs"
  have li: "collect (map (stack_load st) ins) = Inr ?xs"
    using assms by (intro collect_loads_inside) simp_all
  have lo: "collect (map (stack_load st) outs) = Inr ?ys"
    using assms by (intro collect_loads_inside) simp_all
  show False
  proof (cases "eval_interpreted fn (map float_slot ?xs) (map float_slot ?ys)
      (ExecutionContext_init globals)")
    case (Inl e)
    with a li lo have "e = StackOverflow" by (simp add: eval_instruction_def bind_err_def)
    with eval_interpreted_error [OF Inl] show False by simp
  next
    case (Inr r)
    obtain out ctx where r: "r = (out, ctx)" by (cases r)
    show False
    proof (cases "collect (map (get_float out) [0..<length outs])")
      case (Inl e)
      with a li lo Inr r have "e = StackOverflow" by (simp add: eval_instruction_def bind_err_def)
      with collect_gets_error [OF Inl] show False by simp
    next
      case rs: (Inr rs)
      have "\<forall>w\<in>set (zip outs rs). in_stack (fst w)"
        using assms(1) by (auto dest: set_zip_leftD)
      from store_all_inside [OF this assms(2)] obtain st' where
        "store_all st (zip outs rs) = Inr st'" by blast
      with a li lo Inr r rs show False by (simp add: eval_instruction_def bind_err_def)
    qed
  qed
qed

text \<open>
  Claim C6. The stack capacity is 4095. On a stack of that capacity a load or a store at
  an offset inside \<open>[0, 4095)\<close> succeeds, on the addressed slot; at an offset outside it
  fails with StackOverflow, whatever the stack. An instruction executed on a stack of that
  capacity fails with StackOverflow exactly when one of its operand offsets, among its
  inputs or its outputs, is outside \<open>[0, 4095)\<close>; the evaluation then fails with
  StackOverflow there: no stack is returned, so no access is clamped or wrapped to a slot
  inside. And when \<^verbatim>\<open>eval_expression\<close> returns a stack, it has the length of the one it
  was given and every instruction that was executed had all its offsets inside.
\<close>

theorem stack_bounds:
  "BVM_STACK_SIZE = 4095
   \<and> (in_stack off \<and> length st = BVM_STACK_SIZE \<longrightarrow>
        stack_load st off = Inr (st ! nat off) \<and> stack_store st off x = Inr (st[nat off := x]))
   \<and> (\<not> in_stack off \<longrightarrow>
        stack_load st off = Inl StackOverflow \<and> stack_store st off x = Inl StackOverflow)
   \<and> (length st = BVM_STACK_SIZE \<longrightarrow>
        (eval_instruction globals st fn ins outs = Inl StackOverflow
           \<longleftrightarrow> (\<exists>off\<in>set (ins @ outs). \<not> in_stack off)))
   \<and> ((\<exists>off\<in>set (ins @ outs). \<not> in_stack off) \<longrightarrow>
        eval_instructions globals (Call fn ins outs # rest) st = Inl StackOverflow)
   \<and> (eval_expression globals stream entry_point st = Inr st' \<longrightarrow>
        length st' = length st
        \<and> (\<forall>i\<in>set (executed (drop (nat entry_point) stream)). \<forall>off\<in>set (offsets i). in_stack off))"
proof (intro conjI impI)
  show "BVM_STACK_SIZE = 4095" by (simp add: BVM_STACK_SIZE_def)
next
  assume "in_stack off \<and> length st = BVM_STACK_SIZE"
  then show "stack_load st off = Inr (st ! nat off)" by (simp add: stack_load_inside)
next
  assume "in_stack off \<and> length st = BVM_STACK_SIZE"
  then show "stack_store st off x = Inr (st[nat off := x])" by (simp add: stack_store_inside)
next
  assume "\<not> in_stack off"
  then show "stack_load st off = Inl StackOverflow" by (rule stack_load_outside)
next
  assume "\<not> in_stack off"
  then show "stack_store st off x = Inl StackOverflow" by (rule stack_store_outside)
next
  assume "length st = BVM_STACK_SIZE"
  then show "eval_instruction globals st fn ins outs = Inl StackOverflow
      \<longleftrightarrow> (\<exists>off\<in>set (ins @ outs). \<not> in_stack off)"
    using eval_instruction_inside [of ins outs st globals fn]
      eval_instruction_outside [of ins outs globals st fn]
    by blast
next
  assume "\<exists>off\<in>set (ins @ outs). \<not> in_stack off"
  then show "eval_instructions globals (Call fn ins outs # rest) st = Inl StackOverflow"
    by (simp add: eval_instruction_outside bind_err_def)
next
  assume a: "eval_expression globals stream entry_point st = Inr st'"
  then have r: "eval_instructions globals (drop (nat entry_point) stream) st = Inr st'"
    by (simp add: eval_expression_def split: if_splits)
  from eval_instructions_inside [OF r]
  show "length st' = length st" by simp
  from eval_instructions_inside [OF r]
  show "\<forall>i\<in>set (executed (drop (nat entry_point) stream)). \<forall>off\<in>set (offsets i). in_stack off"
    by simp
qed

text \<open>
  On a stack of 4095 slots that holds 2 and 3 in its last two slots: slot 4094 is loaded
  and stored, offset 4095 is refused, the product of slots 4093 and 4094 is written to slot
  4094, and the same instruction with its output at offset 4095 fails.
\<close>

theorem stack_bounds_witness:
  "length ((replicate 4095 (float_lit 0))[4093 := float_lit 2, 4094 := float_lit 3]) = BVM_STACK_SIZE
   \<and> in_stack 4093 \<and> in_stack 4094 \<and> \<not> in_stack 4095
   \<and> stack_load ((replicate 4095 (float_lit 0))[4093 := float_lit 2, 4094 := float_lit 3]) 4094
       = Inr (float_lit 3)
   \<and> stack_store ((replicate 4095 (float_lit 0))[4093 := float_lit 2, 4094 := float_lit 3]) 4094
        (float_lit 1)
       = Inr ((replicate 4095 (float_lit 0))[4093 := float_lit 2, 4094 := float_lit 1])
   \<and> stack_load ((replicate 4095 (float_lit 0))[4093 := float_lit 2, 4094 := float_lit 3]) 4095
       = Inl StackOverflow
   \<and> stack_store ((replicate 4095 (float_lit 0))[4093 := float_lit 2, 4094 := float_lit 3]) 4095
        (float_lit 1) = Inl StackOverflow
   \<and> eval_expression \<lparr>objects = []\<rparr> [Call multiply_floats_fn [4093, 4094] [4094], End] 0
        ((replicate 4095 (float_lit 0))[4093 := float_lit 2, 4094 := float_lit 3])
       = Inr ((replicate 4095 (float_lit 0))[4093 := float_lit 2, 4094 := float_lit 6])
   \<and> eval_instruction \<lparr>objects = []\<rparr>
        ((replicate 4095 (float_lit 0))[4093 := float_lit 2, 4094 := float_lit 3])
        multiply_floats_fn [4093, 4094] [4094] \<noteq> Inl StackOverflow
   \<and> eval_instruction \<lparr>objects = []\<rparr>
        ((replicate 4095 (float_lit 0))[4093 := float_lit 2, 4094 := float_lit 3])
        multiply_floats_fn [4093, 4094] [4095] = Inl StackOverflow
   \<and> eval_instructions \<lparr>objects = []\<rparr> (Call multiply_floats_fn [4093, 4094] [4095] # [End])
        ((replicate 4095 (float_lit 0))[4093 := float_lit 2, 4094 := float_lit 3])
       = Inl StackOverflow"
proof -
  let ?st = "(replicate 4095 (float_lit 0))[4093 := float_lit 2, 4094 := float_lit 3]"
  let ?g = "\<lparr>objects = []\<rparr>"
  let ?ok = "[Call multiply_floats_fn [4093, 4094] [4094], End]"
  let ?st' = "(replicate 4095 (float_lit 0))[4093 := float_lit 2, 4094 := float_lit 6]"
  have len: "length ?st = BVM_STACK_SIZE" by (simp add: BVM_STACK_SIZE_def)
  have i: "in_stack 4093" "in_stack 4094" "in_stack 4094 \<and> length ?st = BVM_STACK_SIZE"
    using len by (simp_all add: in_stack_def)
  have o: "\<not> in_stack 4095" by (simp add: in_stack_def)
  have bad: "\<exists>off\<in>set ([4093, 4094] @ [4095]). \<not> in_stack off" using o by simp
  have good: "\<not> (\<exists>off\<in>set ([4093, 4094] @ [4094]). \<not> in_stack off)" using i by simp
  have c: "MultiplyFloats_call [float_slot (float_lit 2), float_slot (float_lit 3)]
      [float_slot (float_lit 3)] (ExecutionContext_init ?g)
     = Inr ([\<lparr>slot_value = FloatVal (float_lit 6), slot_writes = 1\<rparr>], ExecutionContext_init ?g)"
    by (simp add: MultiplyFloats_call_def get_float_slots get_float_slot_Suc set_float_holds
        holds_float_slot written_once_slot mul_2_3 bind_err_def)
  have r: "eval_expression ?g ?ok 0 ?st = Inr ?st'"
    by (simp add: eval_expression_def eval_instruction_def stack_load_def stack_store_def
        BVM_STACK_SIZE_def bind_err_def eval_interpreted_def multiply_floats_fn_def
        SharedFunction_New_def c get_float_def)
  note t1 = stack_bounds [of 4094 ?st "float_lit 1" ?g multiply_floats_fn "[4093, 4094]" "[4094]" "[End]"
      ?ok 0 ?st']
  note t2 = stack_bounds [of 4095 ?st "float_lit 1" ?g multiply_floats_fn "[4093, 4094]" "[4095]" "[End]"
      ?ok 0 ?st']
  from t1 i(3) have ld: "stack_load ?st 4094 = Inr (?st ! nat 4094)
      \<and> stack_store ?st 4094 (float_lit 1) = Inr (?st[nat 4094 := float_lit 1])"
    by blast
  from t1 len good have ins: "eval_instruction ?g ?st multiply_floats_fn [4093, 4094] [4094]
      \<noteq> Inl StackOverflow"
    by blast
  from t2 o have out: "stack_load ?st 4095 = Inl StackOverflow
      \<and> stack_store ?st 4095 (float_lit 1) = Inl StackOverflow"
    by blast
  from t2 len bad have ins': "eval_instruction ?g ?st multiply_floats_fn [4093, 4094] [4095]
      = Inl StackOverflow"
    by blast
  from t2 bad have run': "eval_instructions ?g (Call multiply_floats_fn [4093, 4094] [4095] # [End]) ?st
      = Inl StackOverflow"
    by blast
  from ld have ld': "stack_load ?st 4094 = Inr (float_lit 3)
      \<and> stack_store ?st 4094 (float_lit 1)
          = Inr ((replicate 4095 (float_lit 0))[4093 := float_lit 2, 4094 := float_lit 1])"
    by simp
  from len i(1,2) o ld' out r ins ins' run' show ?thesis by blast
qed

section \<open>Map Range\<close>

lemma get_float_tuple: "i < length xs \<Longrightarrow> get_float (float_tuple xs) i = Inr (xs ! i)"
  by (simp add: get_float_def float_tuple_def float_slot_def)

lemma holds_float_tuple: "i < length xs \<Longrightarrow> holds_float (float_tuple xs) i"
  by (simp add: holds_float_def float_tuple_def float_slot_def)

lemma written_once_tuple:
  "written_once (float_tuple [c]) 0 x = [\<lparr>slot_value = FloatVal x, slot_writes = 1\<rparr>]"
  by (simp add: written_once_def float_tuple_def float_slot_def)

lemma get_float_tuple5:
  "get_float (float_tuple [a, b, c, d, e]) 0 = Inr a"
  "get_float (float_tuple [a, b, c, d, e]) 1 = Inr b"
  "get_float (float_tuple [a, b, c, d, e]) 2 = Inr c"
  "get_float (float_tuple [a, b, c, d, e]) 3 = Inr d"
  "get_float (float_tuple [a, b, c, d, e]) 4 = Inr e"
  by (simp_all add: get_float_tuple)

lemma holds_float_tuple1: "holds_float (float_tuple [c]) 0"
  by (simp add: holds_float_tuple)

lemma MapRange_call_result:
  assumes "get_float fn_in 0 = Inr value" and "get_float fn_in 1 = Inr from_min"
    and "get_float fn_in 2 = Inr from_max" and "get_float fn_in 3 = Inr to_min"
    and "get_float fn_in 4 = Inr to_max" and "holds_float fn_out 0"
  shows "call MapRange fn_in fn_out ctx
    = Inr (written_once fn_out 0 (MapRange_result value from_min from_max to_min to_max), ctx)"
  using assms by (simp add: MapRange_call_def bind_err_def set_float_holds)

text \<open>
  Claim C1. On every input tuple whose first five slots hold floats \<open>value\<close>, \<open>from_min\<close>,
  \<open>from_max\<close>, \<open>to_min\<close>, \<open>to_max\<close>, with \<open>from_min\<close> and \<open>from_max\<close> binary32 values that
  differ (\<^verbatim>\<open>from_max != from_min\<close>), the body sets output slot 0 once to
  \<open>to_min + t * (to_max - to_min)\<close> with \<open>t = clamp((value - from_min) / (from_max - from_min), 0, 1)\<close>,
  every operation being the float one.
\<close>

theorem map_range_formula:
  assumes "get_float fn_in 0 = Inr value" and "get_float fn_in 1 = Inr from_min"
    and "get_float fn_in 2 = Inr from_max" and "get_float fn_in 3 = Inr to_min"
    and "get_float fn_in 4 = Inr to_max" and "holds_float fn_out 0"
    and "is_binary32 from_min" and "is_binary32 from_max"
    and "\<not> float_eq from_max from_min"
  shows "call MapRange fn_in fn_out ctx
    = Inr (written_once fn_out 0
        (float_add to_min
           (float_mul
              (CLAMP (float_div (float_sub value from_min) (float_sub from_max from_min))
                 (float_lit 0) (float_lit 1))
              (float_sub to_max to_min))), ctx)"
proof -
  have "\<not> float_eq (float_sub from_max from_min) (float_lit 0)"
    using assms(8,7,9) by (rule float_sub_nonzero)
  then have "MapRange_result value from_min from_max to_min to_max
    = float_add to_min
           (float_mul
              (CLAMP (float_div (float_sub value from_min) (float_sub from_max from_min))
                 (float_lit 0) (float_lit 1))
              (float_sub to_max to_min))"
    by (simp add: MapRange_result_def Let_def float_add_commute)
  with MapRange_call_result [OF assms(1-6)] show ?thesis by simp
qed

lemma is_binary32_0: "is_binary32 (float_lit 0)"
  by (simp add: f32_eval)

lemma is_binary32_10: "is_binary32 (float_lit 10)"
  by (simp add: f32_eval)

lemma map_range_5: "float_add (float_lit 0)
           (float_mul
              (CLAMP (float_div (float_sub (float_lit 5) (float_lit 0)) (float_sub (float_lit 10) (float_lit 0)))
                 (float_lit 0) (float_lit 1))
              (float_sub (float_lit 1) (float_lit 0))) = float_lit (1 / 2)"
  by (simp add: f32_eval CLAMP_def float_gt_def)

lemma map_range_m5: "float_add (float_lit 0)
           (float_mul
              (CLAMP (float_div (float_sub (float_lit (- 5)) (float_lit 0)) (float_sub (float_lit 10) (float_lit 0)))
                 (float_lit 0) (float_lit 1))
              (float_sub (float_lit 1) (float_lit 0))) = float_lit 0"
  by (simp add: f32_eval CLAMP_def float_gt_def)

lemma map_range_15: "float_add (float_lit 0)
           (float_mul
              (CLAMP (float_div (float_sub (float_lit 15) (float_lit 0)) (float_sub (float_lit 10) (float_lit 0)))
                 (float_lit 0) (float_lit 1))
              (float_sub (float_lit 1) (float_lit 0))) = float_lit 1"
  by (simp add: f32_eval CLAMP_def float_gt_def)

text \<open>The instances of the spec: map_range(5,0,10,0,1) = 0.5, map_range(-5,0,10,0,1) = 0, map_range(15,0,10,0,1) = 1.\<close>

theorem map_range_formula_witness:
  "is_binary32 (float_lit 0) \<and> is_binary32 (float_lit 10)
   \<and> \<not> float_eq (float_lit 10) (float_lit 0)
   \<and> call MapRange (float_tuple [float_lit 5, float_lit 0, float_lit 10, float_lit 0, float_lit 1])
        (float_tuple [float_lit 0]) (ExecutionContext_init \<lparr>objects = []\<rparr>)
      = Inr ([\<lparr>slot_value = FloatVal (float_lit (1 / 2)), slot_writes = 1\<rparr>],
             ExecutionContext_init \<lparr>objects = []\<rparr>)
   \<and> call MapRange (float_tuple [float_lit (- 5), float_lit 0, float_lit 10, float_lit 0, float_lit 1])
        (float_tuple [float_lit 0]) (ExecutionContext_init \<lparr>objects = []\<rparr>)
      = Inr ([\<lparr>slot_value = FloatVal (float_lit 0), slot_writes = 1\<rparr>],
             ExecutionContext_init \<lparr>objects = []\<rparr>)
   \<and> call MapRange (float_tuple [float_lit 15, float_lit 0, float_lit 10, float_lit 0, float_lit 1])
        (float_tuple [float_lit 0]) (ExecutionContext_init \<lparr>objects = []\<rparr>)
      = Inr ([\<lparr>slot_value = FloatVal (float_lit 1), slot_writes = 1\<rparr>],
             ExecutionContext_init \<lparr>objects = []\<rparr>)"
proof -
  have ne: "\<not> float_eq (float_lit 10) (float_lit 0)"
    by (simp add: float_lit_def signed_value_def)
  note t = map_range_formula [OF get_float_tuple5 holds_float_tuple1 is_binary32_0 is_binary32_10 ne]
  show ?thesis
    using t [of "float_lit 5" "float_lit 0" "float_lit 1" "float_lit 0"
          "ExecutionContext_init \<lparr>objects = []\<rparr>"]
      t [of "float_lit (- 5)" "float_lit 0" "float_lit 1" "float_lit 0"
          "ExecutionContext_init \<lparr>objects = []\<rparr>"]
      t [of "float_lit 15" "float_lit 0" "float_lit 1" "float_lit 0"
          "ExecutionContext_init \<lparr>objects = []\<rparr>"]
    by (simp only: map_range_5 map_range_m5 map_range_15 written_once_tuple is_binary32_0
        is_binary32_10 ne simp_thms)
qed

text \<open>
  Claim C2, as stated, fails when the common bound \<open>c\<close> is an infinity: \<^verbatim>\<open>from_max == from_min\<close>
  holds, but \<^verbatim>\<open>from_range\<close> is \<open>\<infinity> - \<infinity>\<close>, a NaN, which is not equal to 0; the body divides and
  returns a NaN, not \<open>to_min\<close>.
\<close>

theorem map_range_degenerate_counterexample:
  "float_eq (Infinity False) (Infinity False)
   \<and> call MapRange
        (float_tuple [float_lit 5, Infinity False, Infinity False, float_lit 1, float_lit 2])
        (float_tuple [float_lit 0]) (ExecutionContext_init \<lparr>objects = []\<rparr>)
      = Inr ([\<lparr>slot_value = FloatVal NaN, slot_writes = 1\<rparr>],
             ExecutionContext_init \<lparr>objects = []\<rparr>)
   \<and> NaN \<noteq> float_lit 1
   \<and> MapRange_divisions (float_lit 5) (Infinity False) (Infinity False) (float_lit 1) (float_lit 2) = 1"
proof -
  have "MapRange_result (float_lit 5) (Infinity False) (Infinity False) (float_lit 1) (float_lit 2) = NaN"
    by (simp add: MapRange_result_def float_sub_def float_lit_def CLAMP_def float_gt_def)
  with MapRange_call_result [OF get_float_tuple5 holds_float_tuple1,
      of "float_lit 5" "Infinity False" "Infinity False" "float_lit 1" "float_lit 2" "float_lit 0"
        "ExecutionContext_init \<lparr>objects = []\<rparr>"]
  show ?thesis
    by (simp add: written_once_tuple MapRange_divisions_def float_sub_def float_lit_def)
qed

text \<open>
  Claim C2, amended. For every \<open>value\<close>, \<open>to_min\<close>, \<open>to_max\<close>, when \<open>from_min\<close> and \<open>from_max\<close> are
  finite and equal (\<^verbatim>\<open>from_max == from_min\<close>), the body sets output slot 0 once to \<open>to_min\<close>
  and performs no division.
\<close>

theorem map_range_degenerate:
  assumes "get_float fn_in 0 = Inr value" and "get_float fn_in 1 = Inr from_min"
    and "get_float fn_in 2 = Inr from_max" and "get_float fn_in 3 = Inr to_min"
    and "get_float fn_in 4 = Inr to_max" and "holds_float fn_out 0"
    and "is_finite from_min" and "is_finite from_max"
    and "float_eq from_max from_min"
  shows "call MapRange fn_in fn_out ctx = Inr (written_once fn_out 0 to_min, ctx)
    \<and> MapRange_divisions value from_min from_max to_min to_max = 0"
proof -
  have z: "float_eq (float_sub from_max from_min) (float_lit 0)"
    using assms(8,7,9) by (rule float_sub_zero)
  then have "MapRange_result value from_min from_max to_min to_max = to_min"
    by (simp add: MapRange_result_def Let_def)
  with MapRange_call_result [OF assms(1-6)] z show ?thesis
    by (simp add: MapRange_divisions_def)
qed

theorem map_range_degenerate_witness:
  "is_finite (float_lit 7) \<and> float_eq (float_lit 7) (float_lit 7)
   \<and> call MapRange (float_tuple [float_lit 5, float_lit 7, float_lit 7, float_lit 1, float_lit 2])
        (float_tuple [float_lit 0]) (ExecutionContext_init \<lparr>objects = []\<rparr>)
      = Inr ([\<lparr>slot_value = FloatVal (float_lit 1), slot_writes = 1\<rparr>],
             ExecutionContext_init \<lparr>objects = []\<rparr>)
   \<and> MapRange_divisions (float_lit 5) (float_lit 7) (float_lit 7) (float_lit 1) (float_lit 2) = 0"
proof -
  have f: "is_finite (float_lit 7)" by (simp add: float_lit_def)
  have e: "float_eq (float_lit 7) (float_lit 7)" by (simp add: float_lit_def)
  from map_range_degenerate [OF get_float_tuple5 holds_float_tuple1 f f e,
      of "float_lit 5" "float_lit 1" "float_lit 2" "float_lit 0"
        "ExecutionContext_init \<lparr>objects = []\<rparr>"]
  show ?thesis by (simp only: written_once_tuple f e simp_thms)
qed

text \<open>
  Claim C3, as stated, fails in two ways. With the destination bounds in descending order,
  map_range(5,0,10,1,0) = 0.5 is below \<open>to_min = 1\<close>. With them in ascending order,
  map_range(10,0,10,3,33554430) = 33554432 is above \<open>to_max\<close>: \<open>to_max - to_min\<close> rounds up to
  33554428, and adding \<open>to_min\<close> rounds up again.
\<close>

theorem map_range_bounds_counterexample:
  "call MapRange (float_tuple [float_lit 5, float_lit 0, float_lit 10, float_lit 1, float_lit 0])
        (float_tuple [float_lit 0]) (ExecutionContext_init \<lparr>objects = []\<rparr>)
      = Inr ([\<lparr>slot_value = FloatVal (float_lit (1 / 2)), slot_writes = 1\<rparr>],
             ExecutionContext_init \<lparr>objects = []\<rparr>)
   \<and> \<not> float_le (float_lit 1) (float_lit (1 / 2))
   \<and> call MapRange
        (float_tuple [float_lit 10, float_lit 0, float_lit 10, float_lit 3, float_lit 33554430])
        (float_tuple [float_lit 0]) (ExecutionContext_init \<lparr>objects = []\<rparr>)
      = Inr ([\<lparr>slot_value = FloatVal (float_lit 33554432), slot_writes = 1\<rparr>],
             ExecutionContext_init \<lparr>objects = []\<rparr>)
   \<and> is_binary32 (float_lit 3) \<and> is_binary32 (float_lit 33554430)
   \<and> float_le (float_lit 3) (float_lit 33554430)
   \<and> \<not> float_le (float_lit 33554432) (float_lit 33554430)"
proof -
  have a: "MapRange_result (float_lit 5) (float_lit 0) (float_lit 10) (float_lit 1) (float_lit 0)
      = float_lit (1 / 2)"
    by (simp add: MapRange_result_def f32_eval CLAMP_def float_gt_def)
  have b: "MapRange_result (float_lit 10) (float_lit 0) (float_lit 10) (float_lit 3)
      (float_lit 33554430) = float_lit 33554432"
    by (simp add: MapRange_result_def f32_eval CLAMP_def float_gt_def)
  have c: "is_binary32 (float_lit 3) \<and> is_binary32 (float_lit 33554430)"
    by (simp add: f32_eval)
  have d: "\<not> float_le (float_lit 1) (float_lit (1 / 2))
      \<and> float_le (float_lit 3) (float_lit 33554430)
      \<and> \<not> float_le (float_lit 33554432) (float_lit 33554430)"
    by (simp add: float_le_def float_lit_def signed_value_def)
  from MapRange_call_result [OF get_float_tuple5 holds_float_tuple1,
      of "float_lit 5" "float_lit 0" "float_lit 10" "float_lit 1" "float_lit 0" "float_lit 0"
        "ExecutionContext_init \<lparr>objects = []\<rparr>"]
    MapRange_call_result [OF get_float_tuple5 holds_float_tuple1,
      of "float_lit 10" "float_lit 0" "float_lit 10" "float_lit 3" "float_lit 33554430" "float_lit 0"
        "ExecutionContext_init \<lparr>objects = []\<rparr>"]
    a b c d
  show ?thesis by (simp add: written_once_tuple)
qed

lemma endpoint_between:
  assumes m: "is_binary32 (Finite s0 m0)"
  shows "(0 \<le> signed_value sr mr \<longrightarrow> float_le (Finite s0 m0) (float_add (Finite sr mr) (Finite s0 m0)))
       \<and> (signed_value sr mr \<le> 0 \<longrightarrow> float_le (float_add (Finite sr mr) (Finite s0 m0)) (Finite s0 m0))"
proof -
  obtain s0' where M: "f32_round (s0 \<and> s0) (signed_value s0 m0) = Finite s0' m0"
      "signed_value s0' m0 = signed_value s0 m0"
    using f32_round_value [OF m] by blast
  show ?thesis
  proof (intro conjI impI)
    assume "0 \<le> signed_value sr mr"
    then have "float_le (f32_round (s0 \<and> s0) (signed_value s0 m0))
        (f32_round (sr \<and> s0) (signed_value sr mr + signed_value s0 m0))"
      by (intro f32_round_mono) simp
    then show "float_le (Finite s0 m0) (float_add (Finite sr mr) (Finite s0 m0))"
      unfolding M(1) using float_le_value_left [OF M(2)] by simp
  next
    assume "signed_value sr mr \<le> 0"
    then have "float_le (f32_round (sr \<and> s0) (signed_value sr mr + signed_value s0 m0))
        (f32_round (s0 \<and> s0) (signed_value s0 m0))"
      by (intro f32_round_mono) simp
    then show "float_le (float_add (Finite sr mr) (Finite s0 m0)) (Finite s0 m0)"
      unfolding M(1) using float_le_value_right [OF M(2)] by simp
  qed
qed

lemma float_sub_Finite:
  "float_sub (Finite s m) (Finite s' m') = f32_round (s \<and> \<not> s') (signed_value s m - signed_value s' m')"
  by (simp add: float_sub_def signed_value_def)

lemma float_sub_sign:
  assumes "float_sub (Finite s1 m1) (Finite s0 m0) = Finite sr mr"
  shows "(float_le (Finite s0 m0) (Finite s1 m1) \<longrightarrow> 0 \<le> signed_value sr mr)
       \<and> (float_le (Finite s1 m1) (Finite s0 m0) \<longrightarrow> signed_value sr mr \<le> 0)"
proof (intro conjI impI)
  assume "float_le (Finite s0 m0) (Finite s1 m1)"
  then have "0 \<le> signed_value s1 m1 - signed_value s0 m0" by simp
  from f32_round_mono [OF this, of "s1 \<and> \<not> s0" "s1 \<and> \<not> s0"]
  show "0 \<le> signed_value sr mr"
    using assms by (simp add: float_sub_Finite f32_round_def)
next
  assume "float_le (Finite s1 m1) (Finite s0 m0)"
  then have "signed_value s1 m1 - signed_value s0 m0 \<le> 0" by simp
  from f32_round_mono [OF this, of "s1 \<and> \<not> s0" "s1 \<and> \<not> s0"]
  show "signed_value sr mr \<le> 0"
    using assms by (simp add: float_sub_Finite f32_round_def)
qed

lemma MapRange_result_between:
  assumes m: "is_binary32 (Finite s0 m0)"
    and r: "float_sub (Finite s1 m1) (Finite s0 m0) = Finite sr mr"
    and n: "MapRange_result value from_min from_max (Finite s0 m0) (Finite s1 m1) \<noteq> NaN"
  shows "(0 \<le> signed_value sr mr \<longrightarrow>
            float_le (Finite s0 m0) (MapRange_result value from_min from_max (Finite s0 m0) (Finite s1 m1))
          \<and> float_le (MapRange_result value from_min from_max (Finite s0 m0) (Finite s1 m1))
               (float_add (Finite sr mr) (Finite s0 m0)))
       \<and> (signed_value sr mr \<le> 0 \<longrightarrow>
            float_le (float_add (Finite sr mr) (Finite s0 m0))
               (MapRange_result value from_min from_max (Finite s0 m0) (Finite s1 m1))
          \<and> float_le (MapRange_result value from_min from_max (Finite s0 m0) (Finite s1 m1))
               (Finite s0 m0))"
proof (cases "float_eq (float_sub from_max from_min) (float_lit 0)")
  case True
  then have "MapRange_result value from_min from_max (Finite s0 m0) (Finite s1 m1) = Finite s0 m0"
    by (simp add: MapRange_result_def Let_def)
  with endpoint_between [OF m, of sr mr] show ?thesis by simp
next
  case False
  let ?t = "CLAMP (float_div (float_sub value from_min) (float_sub from_max from_min))
      (float_lit 0) (float_lit 1)"
  from False have res: "MapRange_result value from_min from_max (Finite s0 m0) (Finite s1 m1)
      = float_add (float_mul ?t (Finite sr mr)) (Finite s0 m0)"
    by (simp add: MapRange_result_def Let_def r)
  have rb: "is_binary32 (Finite sr mr)"
    using f32_round_binary32 [of "s1 \<and> \<not> s0" "signed_value s1 m1 - signed_value s0 m0"] r
    by (simp add: float_sub_Finite)
  from CLAMP_unit [of "float_div (float_sub value from_min) (float_sub from_max from_min)"]
  show ?thesis
  proof
    assume "?t = NaN"
    with res n show ?thesis by simp
  next
    assume "\<exists>s m. ?t = Finite s m \<and> 0 \<le> signed_value s m \<and> signed_value s m \<le> 1"
    then obtain st mt where t: "?t = Finite st mt" "0 \<le> signed_value st mt" "signed_value st mt \<le> 1"
      by blast
    from interpolate_between [OF t(2,3) rb m] show ?thesis
      unfolding res t(1) .
  qed
qed

text \<open>
  Claim C3, amended. Let \<open>to_min\<close> and \<open>to_max\<close> be finite, \<open>to_min\<close> a binary32 value, and
  \<open>to_max - to_min\<close> finite (no overflow). Whenever the result \<open>r\<close> of the body is not a NaN,
  it lies between \<open>to_min\<close> and \<open>u = (to_max - to_min) + to_min\<close> computed in floats, the
  value of the body at \<open>t = 1\<close>: \<open>to_min \<le> r \<le> u\<close> when \<open>to_min \<le> to_max\<close>, and
  \<open>u \<le> r \<le> to_min\<close> when \<open>to_max \<le> to_min\<close>. When \<open>to_max\<close> is a binary32 value and the
  subtraction \<open>to_max - to_min\<close> is exact, \<open>u\<close> equals \<open>to_max\<close>.
\<close>

theorem map_range_bounds:
  assumes "get_float fn_in 0 = Inr value" and "get_float fn_in 1 = Inr from_min"
    and "get_float fn_in 2 = Inr from_max" and "get_float fn_in 3 = Inr to_min"
    and "get_float fn_in 4 = Inr to_max" and "holds_float fn_out 0"
    and "is_binary32 to_min" and "is_finite to_min" and "is_finite to_max"
    and "is_finite (float_sub to_max to_min)"
  shows "\<exists>r. call MapRange fn_in fn_out ctx = Inr (written_once fn_out 0 r, ctx)
    \<and> (r \<noteq> NaN \<and> float_le to_min to_max \<longrightarrow>
         float_le to_min r \<and> float_le r (float_add (float_sub to_max to_min) to_min))
    \<and> (r \<noteq> NaN \<and> float_le to_max to_min \<longrightarrow>
         float_le (float_add (float_sub to_max to_min) to_min) r \<and> float_le r to_min)
    \<and> (is_binary32 to_max
         \<and> float_val (float_sub to_max to_min) = float_val to_max - float_val to_min \<longrightarrow>
         float_eq (float_add (float_sub to_max to_min) to_min) to_max)"
proof -
  from assms(8) obtain s0 m0 where t0: "to_min = Finite s0 m0" by (cases to_min) auto
  from assms(9) obtain s1 m1 where t1: "to_max = Finite s1 m1" by (cases to_max) auto
  from assms(10) obtain sr mr where r: "float_sub to_max to_min = Finite sr mr"
    by (cases "float_sub to_max to_min") auto
  let ?r = "MapRange_result value from_min from_max to_min to_max"
  have m: "is_binary32 (Finite s0 m0)" using assms(7) t0 by simp
  have r': "float_sub (Finite s1 m1) (Finite s0 m0) = Finite sr mr" using r t0 t1 by simp
  note sg = float_sub_sign [OF r']
  have c: "call MapRange fn_in fn_out ctx = Inr (written_once fn_out 0 ?r, ctx)"
    using assms(1-6) by (rule MapRange_call_result)
  have up: "float_le to_min ?r \<and> float_le ?r (float_add (float_sub to_max to_min) to_min)"
    if "?r \<noteq> NaN" "float_le to_min to_max"
    using MapRange_result_between [OF m r', of "value" from_min from_max] sg that
    unfolding t0 t1 r' by blast
  have down: "float_le (float_add (float_sub to_max to_min) to_min) ?r \<and> float_le ?r to_min"
    if "?r \<noteq> NaN" "float_le to_max to_min"
    using MapRange_result_between [OF m r', of "value" from_min from_max] sg that
    unfolding t0 t1 r' by blast
  have ex: "float_eq (float_add (float_sub to_max to_min) to_min) to_max"
    if "is_binary32 to_max" "float_val (float_sub to_max to_min) = float_val to_max - float_val to_min"
  proof -
    from that(2) have "signed_value sr mr + signed_value s0 m0 = signed_value s1 m1"
      by (simp add: t0 t1 r')
    moreover have "is_binary32 (Finite s1 m1)" using that(1) t1 by simp
    from f32_round_value [OF this, of "sr \<and> s0"]
    obtain s' where "f32_round (sr \<and> s0) (signed_value s1 m1) = Finite s' m1"
        "signed_value s' m1 = signed_value s1 m1"
      by blast
    ultimately show ?thesis by (simp add: t0 t1 r')
  qed
  from c up down ex show ?thesis by blast
qed

theorem map_range_bounds_witness:
  "is_binary32 (float_lit 0) \<and> is_finite (float_lit 0) \<and> is_finite (float_lit 1)
   \<and> is_finite (float_sub (float_lit 1) (float_lit 0))
   \<and> float_le (float_lit 0) (float_lit 1)
   \<and> call MapRange (float_tuple [float_lit 5, float_lit 0, float_lit 10, float_lit 0, float_lit 1])
        (float_tuple [float_lit 0]) (ExecutionContext_init \<lparr>objects = []\<rparr>)
      = Inr ([\<lparr>slot_value = FloatVal (float_lit (1 / 2)), slot_writes = 1\<rparr>],
             ExecutionContext_init \<lparr>objects = []\<rparr>)
   \<and> float_le (float_lit 0) (float_lit (1 / 2))
   \<and> float_le (float_lit (1 / 2)) (float_add (float_sub (float_lit 1) (float_lit 0)) (float_lit 0))
   \<and> float_eq (float_add (float_sub (float_lit 1) (float_lit 0)) (float_lit 0)) (float_lit 1)"
proof -
  let ?ctx = "ExecutionContext_init \<lparr>objects = []\<rparr>"
  have f: "is_finite (float_lit 0)" "is_finite (float_lit 1)"
    by (simp_all add: float_lit_def)
  have s: "float_sub (float_lit 1) (float_lit 0) = float_lit 1"
    by (simp add: f32_eval)
  have fs: "is_finite (float_sub (float_lit 1) (float_lit 0))"
    by (simp only: s f)
  have b1: "is_binary32 (float_lit 1)"
    by (simp add: f32_eval)
  have le: "float_le (float_lit 0) (float_lit 1)"
    by (simp add: float_lit_def signed_value_def)
  have ex: "float_val (float_sub (float_lit 1) (float_lit 0)) = float_val (float_lit 1) - float_val (float_lit 0)"
    by (simp add: s) (simp add: float_lit_def)
  from map_range_bounds [OF get_float_tuple5 holds_float_tuple1 is_binary32_0 f fs,
      of "float_lit 5" "float_lit 0" "float_lit 10" "float_lit 0" ?ctx]
  obtain r where
    c: "call MapRange (float_tuple [float_lit 5, float_lit 0, float_lit 10, float_lit 0, float_lit 1])
          (float_tuple [float_lit 0]) ?ctx = Inr (written_once (float_tuple [float_lit 0]) 0 r, ?ctx)"
    and b: "r \<noteq> NaN \<and> float_le (float_lit 0) (float_lit 1) \<longrightarrow>
          float_le (float_lit 0) r
          \<and> float_le r (float_add (float_sub (float_lit 1) (float_lit 0)) (float_lit 0))"
    and e: "is_binary32 (float_lit 1)
          \<and> float_val (float_sub (float_lit 1) (float_lit 0)) = float_val (float_lit 1) - float_val (float_lit 0) \<longrightarrow>
          float_eq (float_add (float_sub (float_lit 1) (float_lit 0)) (float_lit 0)) (float_lit 1)"
    by blast
  have "MapRange_result (float_lit 5) (float_lit 0) (float_lit 10) (float_lit 0) (float_lit 1)
      = float_lit (1 / 2)"
    by (simp add: MapRange_result_def f32_eval CLAMP_def float_gt_def)
  with MapRange_call_result [OF get_float_tuple5 holds_float_tuple1,
      of "float_lit 5" "float_lit 0" "float_lit 10" "float_lit 0" "float_lit 1" "float_lit 0" ?ctx]
  have "call MapRange (float_tuple [float_lit 5, float_lit 0, float_lit 10, float_lit 0, float_lit 1])
          (float_tuple [float_lit 0]) ?ctx
        = Inr (written_once (float_tuple [float_lit 0]) 0 (float_lit (1 / 2)), ?ctx)"
    by simp
  with c have r: "r = float_lit (1 / 2)"
    by (simp add: written_once_tuple)
  have "float_lit (1 / 2) \<noteq> NaN" by (simp add: float_lit_def)
  with b e r le b1 ex c show ?thesis
    by (simp only: written_once_tuple is_binary32_0 f fs simp_thms)
qed

end
